theory Spec2Isabelle
  imports Complex_Main "HOL-Library.AList"
begin

section \<open>Values, errors and Python indexing\<close>

text \<open>
  The exceptions the modelled functions of \<^verbatim>\<open>format_data.py\<close> and
  \<^verbatim>\<open>statistics.py\<close> can raise. A function that may raise returns
  \<open>py_error + 'a\<close>, with \<open>Inl\<close> for the exception.
\<close>

datatype py_error = IndexError | ValueError | TypeError

text \<open>
  An entry of a NumPy \<^verbatim>\<open>float64\<close> array. Finite entries are modelled by exact reals
  (rounding is not modelled); the three special values are what NumPy's division
  produces when the divisor is zero.
\<close>

datatype npfloat = Fin real | NaN | PosInf | NegInf

text \<open>
  Python resolves an index \<open>i\<close> into a sequence of \<open>n\<close> elements: \<open>0 \<le> i < n\<close>
  addresses from the front, \<open>-n \<le> i < 0\<close> from the back, anything else raises.
\<close>

definition py_index :: "nat \<Rightarrow> int \<Rightarrow> nat option" where
  "py_index n i =
     (if 0 \<le> i \<and> i < int n then Some (nat i)
      else if - int n \<le> i \<and> i < 0 then Some (nat (i + int n))
      else None)"

section \<open>One-hot encoding and masked examples\<close>

text \<open>
  \<^verbatim>\<open>pad_sequences([sequence], padding='post', maxlen=max_length)[0]\<close> of Keras
  (a library, not part of the repository): a sequence longer than \<open>maxlen\<close> keeps its
  last \<open>maxlen\<close> entries (the default \<^verbatim>\<open>truncating='pre'\<close>), a shorter one is
  filled with the value 0 on the right.
\<close>

definition pad_sequences_post :: "nat \<Rightarrow> int list \<Rightarrow> int list" where
  "pad_sequences_post maxlen s =
     (let trunc = drop (length s - maxlen) s
      in trunc @ replicate (maxlen - length trunc) 0)"

text \<open>
  \<^verbatim>\<open>one_hot_encode(sequence, n_features)\<close>: for every value a vector of
  \<open>n_features\<close> zeros with \<^verbatim>\<open>vector[value] = 1\<close>; the assignment raises when the
  value is no index of the vector.
\<close>

fun one_hot_encode :: "int list \<Rightarrow> nat \<Rightarrow> py_error + int list list" where
  "one_hot_encode [] n_features = Inr []"
| "one_hot_encode (v # sequence) n_features =
     (case py_index n_features v of
        None \<Rightarrow> Inl IndexError
      | Some j \<Rightarrow>
          (case one_hot_encode sequence n_features of
             Inl e \<Rightarrow> Inl e
           | Inr encoding \<Rightarrow> Inr ((replicate n_features 0)[j := 1] # encoding)))"

definition astype_float64 :: "int list list \<Rightarrow> npfloat list list" where
  "astype_float64 encoding = map (map (\<lambda>v. Fin (real_of_int v))) encoding"

text \<open>
  \<^verbatim>\<open>encoding[:len(feature), column] = feature\<close>: the first \<open>len(feature)\<close> rows
  receive the feature's values in the given column.
\<close>

fun set_column :: "npfloat list list \<Rightarrow> npfloat list \<Rightarrow> nat \<Rightarrow> npfloat list list" where
  "set_column (row # rows) (x # xs) column = row[column := x] # set_column rows xs column"
| "set_column rows [] column = rows"
| "set_column [] xs column = []"

text \<open>
  \<^verbatim>\<open>encode_feature(encoding, feature, column)\<close>. An array without rows is
  one-dimensional and cannot be indexed by row and column; a column outside the
  array raises; a feature with more values than the array has rows cannot be
  broadcast into the slice.
\<close>

definition encode_feature ::
  "npfloat list list \<Rightarrow> npfloat list \<Rightarrow> nat \<Rightarrow> py_error + npfloat list list" where
  "encode_feature encoding feature column =
     (case encoding of
        [] \<Rightarrow> Inl IndexError
      | row0 # _ \<Rightarrow>
          if length row0 \<le> column then Inl IndexError
          else if length encoding < length feature then Inl ValueError
          else Inr (set_column encoding feature column))"

text \<open>
  The loop \<^verbatim>\<open>for f in range(len(features)): X = encode_feature(X, features[f], num_functions + f)\<close>
  of \<^verbatim>\<open>generate_example\<close>, with the running column as argument.
\<close>

fun encode_features ::
  "npfloat list list \<Rightarrow> npfloat list list \<Rightarrow> nat \<Rightarrow> py_error + npfloat list list" where
  "encode_features X [] column = Inr X"
| "encode_features X (feature # features) column =
     (case encode_feature X feature column of
        Inl e \<Rightarrow> Inl e
      | Inr X' \<Rightarrow> encode_features X' features (Suc column))"

text \<open>
  \<^verbatim>\<open>X[idx, 0:num_functions] = np.zeros(num_functions)\<close>: the row index follows
  Python's rules, and the zeros must fit the slice.
\<close>

definition mask_row :: "npfloat list list \<Rightarrow> int \<Rightarrow> nat \<Rightarrow> py_error + npfloat list list" where
  "mask_row X idx num_functions =
     (case py_index (length X) idx of
        None \<Rightarrow> Inl IndexError
      | Some r \<Rightarrow>
          if length (X ! r) < num_functions then Inl ValueError
          else Inr (X[r := replicate num_functions (Fin 0) @ drop num_functions (X ! r)]))"

text \<open>
  \<^verbatim>\<open>generate_example(sequence, features, num_functions, n_features, max_length, idx)\<close>.
  The two final \<^verbatim>\<open>reshape\<close> calls add a leading axis of size 1, so the result is
  a pair of one-element lists of matrices.
\<close>

definition generate_example ::
  "int list \<Rightarrow> npfloat list list \<Rightarrow> nat \<Rightarrow> nat \<Rightarrow> nat \<Rightarrow> int \<Rightarrow>
     py_error + (npfloat list list list \<times> int list list list)" where
  "generate_example sequence features num_functions n_features max_length idx =
     (let padded_sequence = pad_sequences_post max_length sequence in
      case one_hot_encode padded_sequence num_functions of
        Inl e \<Rightarrow> Inl e
      | Inr y \<Rightarrow>
          (case one_hot_encode padded_sequence n_features of
             Inl e \<Rightarrow> Inl e
           | Inr X0 \<Rightarrow>
               (case encode_features (astype_float64 X0) features num_functions of
                  Inl e \<Rightarrow> Inl e
                | Inr X1 \<Rightarrow>
                    (case mask_row X1 idx num_functions of
                       Inl e \<Rightarrow> Inl e
                     | Inr X2 \<Rightarrow> Inr ([X2], [y])))))"

text \<open>
  \<^verbatim>\<open>get_masked(encoding, num_categories)\<close> of \<^verbatim>\<open>statistics.py\<close>:
  \<^verbatim>\<open>np.where(np.all(encoding[:, :num_categories] == 0, axis=1))[0][0]\<close>, the first
  row whose leading \<open>num_categories\<close> entries all compare equal to 0; the final
  \<^verbatim>\<open>[0]\<close> raises when there is no such row.
\<close>

definition zero_block :: "nat \<Rightarrow> npfloat list \<Rightarrow> bool" where
  "zero_block num_categories row = list_all (\<lambda>v. v = Fin 0) (take num_categories row)"

definition get_masked :: "npfloat list list \<Rightarrow> nat \<Rightarrow> py_error + nat" where
  "get_masked encoding num_categories =
     (case filter (\<lambda>i. zero_block num_categories (encoding ! i)) [0..<length encoding] of
        [] \<Rightarrow> Inl IndexError
      | i # _ \<Rightarrow> Inr i)"

section \<open>Genome dictionaries\<close>

text \<open>
  A genome as the pickled dictionaries hold it, with the keys \<^verbatim>\<open>'length'\<close>,
  \<^verbatim>\<open>'phrogs'\<close>, \<^verbatim>\<open>'protein_id'\<close>, \<^verbatim>\<open>'sense'\<close> and \<^verbatim>\<open>'position'\<close>. The type
  \<open>'l\<close> is the type of the raw phrog labels. A dictionary of genomes is an association
  list in insertion order; \<^verbatim>\<open>phrog_encoding.get\<close> is a function into \<open>int option\<close>, with
  \<open>None\<close> for Python's \<^verbatim>\<open>None\<close>.
\<close>

record 'l genome =
  genome_length :: int
  phrogs :: "'l list"
  protein_id :: "string list"
  sense :: "string list"
  position :: "(int \<times> int) list"

text \<open>
  \<^verbatim>\<open>dict(zip(keys, values))\<close>: the pairs are inserted from left to right; a key that
  is already present keeps its place and takes the new value.
\<close>

definition py_dict :: "('a \<times> 'b) list \<Rightarrow> ('a \<times> 'b) list" where
  "py_dict kvs = foldl (\<lambda>d (k, v). AList.update k v d) [] kvs"

text \<open>\<^verbatim>\<open>str\<close> on the values of \<^verbatim>\<open>phrog_encoding.get\<close>: decimal digits, or \<^verbatim>\<open>None\<close>.\<close>

function str_nat :: "nat \<Rightarrow> string" where
  "str_nat n =
     (if n < 10 then [''0123456789'' ! n]
      else str_nat (n div 10) @ [''0123456789'' ! (n mod 10)])"
  by pat_completeness auto
termination
  by (relation "measure id") auto

declare str_nat.simps [simp del]

definition str_category :: "int option \<Rightarrow> string" where
  "str_category c =
     (case c of
        None \<Rightarrow> ''None''
      | Some j \<Rightarrow> if j < 0 then CHR ''-'' # str_nat (nat (- j)) else str_nat (nat j))"

text \<open>
  One entry of \<^verbatim>\<open>training_hash\<close> in \<^verbatim>\<open>derep_trainingdata\<close>:
  \<^verbatim>\<open>''.join(sense) + ''.join([str(j) for j in encoding])\<close>.
\<close>

definition training_hash :: "('l \<Rightarrow> int option) \<Rightarrow> 'l genome \<Rightarrow> string" where
  "training_hash phrog_encoding genome =
     concat (sense genome) @ concat (map str_category (map phrog_encoding (phrogs genome)))"

text \<open>
  \<^verbatim>\<open>derep_trainingdata(training_data, phrog_encoding)\<close>. The source carries the keys
  through \<^verbatim>\<open>dict(zip(training_hash, training_keys))\<close> and reads each genome back with
  \<^verbatim>\<open>training_data.get(d)\<close>; here every key travels together with its genome.
\<close>

definition derep_trainingdata ::
  "('l \<Rightarrow> int option) \<Rightarrow> ('k \<times> 'l genome) list \<Rightarrow> ('k \<times> 'l genome) list" where
  "derep_trainingdata phrog_encoding training_data =
     (let hashes = map (\<lambda>(key, genome). training_hash phrog_encoding genome) training_data;
          dedup = map snd (py_dict (zip hashes training_data))
      in py_dict dedup)"

text \<open>
  The loop over the genomes in \<^verbatim>\<open>generate_data\<close> (lines 41 to 58), over the pairs of
  key and genome in the order the files give them. The state is the two counters and the
  dictionary \<^verbatim>\<open>data\<close>. \<^verbatim>\<open>categories[0]\<close> is only read once four different categories
  are present, so the list is not empty there.
\<close>

fun filter_genomes ::
  "('l \<Rightarrow> int option) \<Rightarrow> ('k \<times> 'l genome) list \<Rightarrow>
     nat \<times> nat \<times> ('k \<times> 'l genome) list \<Rightarrow> nat \<times> nat \<times> ('k \<times> 'l genome) list" where
  "filter_genomes phrog_encoding [] state = state"
| "filter_genomes phrog_encoding ((g, this_genome) # rest) (included, not_included, data) =
     (let categories = map phrog_encoding (phrogs this_genome);
          categories_present = set categories - {Some 0}
      in if 4 \<le> card categories_present then
           (if hd categories = Some 1 \<or> last categories = Some 1
            then filter_genomes phrog_encoding rest
                   (included + 1, not_included, AList.update g this_genome data)
            else filter_genomes phrog_encoding rest (included, not_included + 1, data))
         else filter_genomes phrog_encoding rest (included, not_included, data))"

text \<open>
  \<^verbatim>\<open>generate_data\<close>, from the unpickled dictionaries on: \<open>files\<close> holds one dictionary
  per file, in the order of the three nested \<^verbatim>\<open>glob\<close> loops; \<^verbatim>\<open>phrog_encoding\<close> is a
  module-level name of the source.
\<close>

definition generate_data ::
  "('l \<Rightarrow> int option) \<Rightarrow> ('k \<times> 'l genome) list list \<Rightarrow> ('k \<times> 'l genome) list" where
  "generate_data phrog_encoding files =
     (case filter_genomes phrog_encoding (concat files) (0, 0, []) of
        (included, not_included, data) \<Rightarrow> derep_trainingdata phrog_encoding data)"

section \<open>Orientation of genomes\<close>

text \<open>
  The position list built in \<^verbatim>\<open>flip_genomes\<close>:
  \<^verbatim>\<open>[(np.abs(i[1] - length), np.abs(i[0] - length)) for i in genome.get('position')[::-1]]\<close>.
\<close>

definition reflect_positions :: "int \<Rightarrow> (int \<times> int) list \<Rightarrow> (int \<times> int) list" where
  "reflect_positions len pos =
     map (\<lambda>i. (\<bar>snd i - len\<bar>, \<bar>fst i - len\<bar>)) (rev pos)"

text \<open>
  The body of the loop of \<^verbatim>\<open>flip_genomes\<close> for one genome: \<^verbatim>\<open>encoding[-1]\<close> raises
  on a genome without genes; a genome whose last category is 1 is rebuilt in reverse.
\<close>

definition flip_genome :: "('l \<Rightarrow> int option) \<Rightarrow> 'l genome \<Rightarrow> py_error + 'l genome" where
  "flip_genome phrog_encoding genome =
     (let encoding = map phrog_encoding (phrogs genome)
      in if encoding = [] then Inl IndexError
         else if last encoding = Some 1 then
           Inr \<lparr>genome_length = genome_length genome,
                phrogs = rev (phrogs genome),
                protein_id = rev (protein_id genome),
                sense = map (\<lambda>i. if i = ''+'' then ''-'' else ''+'') (rev (sense genome)),
                position = reflect_positions (genome_length genome) (position genome)\<rparr>
         else Inr genome)"

text \<open>\<^verbatim>\<open>flip_genomes\<close>: the loop over the keys, filling the dictionary \<^verbatim>\<open>data\<close>.\<close>

fun flip_genomes_loop ::
  "('l \<Rightarrow> int option) \<Rightarrow> ('k \<times> 'l genome) list \<Rightarrow> ('k \<times> 'l genome) list \<Rightarrow>
     py_error + ('k \<times> 'l genome) list" where
  "flip_genomes_loop phrog_encoding [] data = Inr data"
| "flip_genomes_loop phrog_encoding ((key, genome) # rest) data =
     (case flip_genome phrog_encoding genome of
        Inl e \<Rightarrow> Inl e
      | Inr flipped \<Rightarrow> flip_genomes_loop phrog_encoding rest (AList.update key flipped data))"

definition flip_genomes ::
  "('l \<Rightarrow> int option) \<Rightarrow> ('k \<times> 'l genome) list \<Rightarrow> py_error + ('k \<times> 'l genome) list" where
  "flip_genomes phrog_encoding training_data = flip_genomes_loop phrog_encoding training_data []"

section \<open>Feature construction\<close>

text \<open>
  NumPy's true division of an integer entry by an integer scalar. The result is a
  \<^verbatim>\<open>float64\<close>; a zero divisor raises nothing (NumPy warns) and gives \<^verbatim>\<open>nan\<close> for
  \<open>0/0\<close>, \<^verbatim>\<open>inf\<close> for a positive and \<^verbatim>\<open>-inf\<close> for a negative dividend.
\<close>

definition np_div :: "int \<Rightarrow> int \<Rightarrow> npfloat" where
  "np_div a b =
     (if b = 0 then (if a = 0 then NaN else if 0 < a then PosInf else NegInf)
      else Fin (real_of_int a / real_of_int b))"

text \<open>\<^verbatim>\<open>np.max\<close> of a sequence of integers: an empty sequence raises \<^verbatim>\<open>ValueError\<close>.\<close>

fun np_max :: "int list \<Rightarrow> py_error + int" where
  "np_max [] = Inl ValueError"
| "np_max (x # xs) = Inr (fold max xs x)"

text \<open>The comprehension \<^verbatim>\<open>[np.max(l) for l in ls]\<close>, stopping at the first exception.\<close>

fun np_max_each :: "int list list \<Rightarrow> py_error + int list" where
  "np_max_each [] = Inr []"
| "np_max_each (l # ls) =
     (case np_max l of
        Inl e \<Rightarrow> Inl e
      | Inr m \<Rightarrow> (case np_max_each ls of Inl e \<Rightarrow> Inl e | Inr ms \<Rightarrow> Inr (m # ms)))"

text \<open>\<^verbatim>\<open>[s/np.max(s) for s in start_encodings]\<close>.\<close>

fun scale_starts :: "int list list \<Rightarrow> py_error + npfloat list list" where
  "scale_starts [] = Inr []"
| "scale_starts (s # ss) =
     (case np_max s of
        Inl e \<Rightarrow> Inl e
      | Inr m \<Rightarrow>
          (case scale_starts ss of
             Inl e \<Rightarrow> Inl e
           | Inr rest \<Rightarrow> Inr (map (\<lambda>v. np_div v m) s # rest)))"

text \<open>
  \<^verbatim>\<open>encode_strand(strand)\<close>: the first array marks the entries equal to 1, the second the
  entries equal to 2.
\<close>

definition encode_strand :: "int list \<Rightarrow> int list \<times> int list" where
  "encode_strand strand =
     (map (\<lambda>i. if i = 1 then 1 else 0) strand, map (\<lambda>i. if i = 2 then 1 else 0) strand)"

text \<open>
  The four sequences that the loop of \<^verbatim>\<open>format_data\<close> computes for one genome: the
  local variables \<^verbatim>\<open>length\<close>, \<^verbatim>\<open>sense\<close>, \<^verbatim>\<open>start\<close> and \<^verbatim>\<open>intergenic\<close>. The first
  position is read only inside the comprehension over the positions.
\<close>

definition length_encoding :: "'l genome \<Rightarrow> int list" where
  "length_encoding genome = map (\<lambda>i. snd i - fst i) (position genome)"

definition sense_encoding :: "'l genome \<Rightarrow> int list" where
  "sense_encoding genome = map (\<lambda>i. if i = ''+'' then 2 else 1) (sense genome)"

definition start_encoding :: "'l genome \<Rightarrow> int list" where
  "start_encoding genome =
     map (\<lambda>i. fst i - fst (position genome ! 0) + 1) (position genome)"

definition intergenic_encoding :: "'l genome \<Rightarrow> int list" where
  "intergenic_encoding genome =
     0 # map (\<lambda>i. fst (position genome ! (i + 1)) - snd (position genome ! i))
           [0..<length (position genome) - 1]"

text \<open>
  The strand indicators are integer arrays; NumPy converts them when
  \<^verbatim>\<open>encode_feature\<close> assigns them into the \<^verbatim>\<open>float64\<close> matrix. The model converts them
  where \<^verbatim>\<open>format_data\<close> assembles the features.
\<close>

definition as_float64 :: "int list \<Rightarrow> npfloat list" where
  "as_float64 xs = map (\<lambda>v. Fin (real_of_int v)) xs"

text \<open>
  \<^verbatim>\<open>format_data(training_data, phrog_encoding)\<close>. The exceptions are those of the four
  calls of \<^verbatim>\<open>np.max\<close> on an empty sequence, in the order the source makes them.
\<close>

definition format_data ::
  "('l \<Rightarrow> int option) \<Rightarrow> ('k \<times> 'l genome) list \<Rightarrow>
     py_error + (int option list list \<times> npfloat list list list)" where
  "format_data phrog_encoding training_data =
     (let training_encodings = map (\<lambda>x. map phrog_encoding (phrogs (snd x))) training_data;
          sense_encodings = map (\<lambda>x. sense_encoding (snd x)) training_data;
          start_encodings = map (\<lambda>x. start_encoding (snd x)) training_data;
          length_encodings = map (\<lambda>x. length_encoding (snd x)) training_data;
          intergenic_encodings = map (\<lambda>x. intergenic_encoding (snd x)) training_data
      in case np_max_each length_encodings of
           Inl e \<Rightarrow> Inl e
         | Inr length_maxima \<Rightarrow>
         (case np_max length_maxima of
           Inl e \<Rightarrow> Inl e
         | Inr max_length \<Rightarrow>
         (case np_max_each (map (map abs) intergenic_encodings) of
           Inl e \<Rightarrow> Inl e
         | Inr intergenic_maxima \<Rightarrow>
         (case np_max intergenic_maxima of
           Inl e \<Rightarrow> Inl e
         | Inr max_intergenic \<Rightarrow>
         (case scale_starts start_encodings of
           Inl e \<Rightarrow> Inl e
         | Inr starts \<Rightarrow>
             Inr (training_encodings,
                  map (\<lambda>j.
                         [as_float64 (fst (encode_strand (sense_encodings ! j))),
                          as_float64 (snd (encode_strand (sense_encodings ! j))),
                          map (\<lambda>v. np_div v max_length) (length_encodings ! j),
                          starts ! j,
                          map (\<lambda>v. np_div v max_intergenic) (intergenic_encodings ! j)])
                      [0..<length training_encodings]))))))"

section \<open>Sampling the masked position\<close>

text \<open>
  \<^verbatim>\<open>random.randint(a, b)\<close>: an integer between \<open>a\<close> and \<open>b\<close>, both included, and a
  \<^verbatim>\<open>ValueError\<close> when the range is empty. The generator is a sequence \<open>rand\<close> of natural
  numbers, one for every call; a call maps its number into the range.
\<close>

definition randint :: "int \<Rightarrow> int \<Rightarrow> nat \<Rightarrow> py_error + int" where
  "randint a b r = (if b < a then Inl ValueError else Inr (a + int r mod (b - a + 1)))"

text \<open>
  The loop \<^verbatim>\<open>while sequences[i][idx] == 0: idx = random.randint(1, len(sequences[i]) - 1)\<close>
  of \<^verbatim>\<open>generate_dataset\<close>; \<open>k\<close> counts the calls of \<^verbatim>\<open>randint\<close> made so far. The loop
  has no bound, so the result is an option: \<open>None\<close> stands for a run that never leaves
  the loop.
\<close>

partial_function (option) resample ::
  "int list \<Rightarrow> (nat \<Rightarrow> nat) \<Rightarrow> nat \<Rightarrow> int \<Rightarrow> (py_error + int \<times> nat) option" where
  "resample sequence rand k idx =
     (case py_index (length sequence) idx of
        None \<Rightarrow> Some (Inl IndexError)
      | Some i \<Rightarrow>
          if sequence ! i = 0 then
            (case randint 1 (int (length sequence) - 1) (rand k) of
               Inl e \<Rightarrow> Some (Inl e)
             | Inr idx' \<Rightarrow> resample sequence rand (Suc k) idx')
          else Some (Inr (idx, k)))"

text \<open>The first draw of the mask index for one genome, followed by the loop.\<close>

definition mask_index ::
  "int list \<Rightarrow> (nat \<Rightarrow> nat) \<Rightarrow> nat \<Rightarrow> (py_error + int \<times> nat) option" where
  "mask_index sequence rand k =
     (case randint 1 (int (length sequence) - 1) (rand k) of
        Inl e \<Rightarrow> Some (Inl e)
      | Inr idx \<Rightarrow> resample sequence rand (Suc k) idx)"

text \<open>
  \<^verbatim>\<open>generate_dataset(sequences, all_features, num_functions, n_features, max_length)\<close>:
  the loop over the genomes. Every example has a leading axis of size 1, so stacking
  and reshaping the examples concatenates them.
\<close>

fun generate_dataset_loop ::
  "int list list \<Rightarrow> npfloat list list list \<Rightarrow> nat \<Rightarrow> nat \<Rightarrow> nat \<Rightarrow> (nat \<Rightarrow> nat) \<Rightarrow> nat \<Rightarrow>
     (py_error + (npfloat list list list \<times> int list list list \<times> int list)) option" where
  "generate_dataset_loop [] all_features num_functions n_features max_length rand k =
     Some (Inr ([], [], []))"
| "generate_dataset_loop (sequence # sequences) all_features num_functions n_features
       max_length rand k =
     (case mask_index sequence rand k of
        None \<Rightarrow> None
      | Some (Inl e) \<Rightarrow> Some (Inl e)
      | Some (Inr (idx, k')) \<Rightarrow>
          (case all_features of
             [] \<Rightarrow> Some (Inl IndexError)
           | features # rest \<Rightarrow>
               (case generate_example sequence features num_functions n_features max_length idx of
                  Inl e \<Rightarrow> Some (Inl e)
                | Inr (this_X, this_y) \<Rightarrow>
                    (case generate_dataset_loop sequences rest num_functions n_features
                            max_length rand k' of
                       None \<Rightarrow> None
                     | Some (Inl e) \<Rightarrow> Some (Inl e)
                     | Some (Inr (X, y, masked_func)) \<Rightarrow>
                         Some (Inr (this_X @ X, this_y @ y,
                                    sequence ! nat idx # masked_func))))))"

definition generate_dataset ::
  "int list list \<Rightarrow> npfloat list list list \<Rightarrow> nat \<Rightarrow> nat \<Rightarrow> nat \<Rightarrow> (nat \<Rightarrow> nat) \<Rightarrow>
     (py_error + (npfloat list list list \<times> int list list list \<times> int list)) option" where
  "generate_dataset sequences all_features num_functions n_features max_length rand =
     generate_dataset_loop sequences all_features num_functions n_features max_length rand 0"
section \<open>Properties of the masked examples\<close>

lemma py_index_nonneg: "0 \<le> v \<Longrightarrow> py_index n v = Some j \<Longrightarrow> j = nat v \<and> nat v < n"
  by (auto simp: py_index_def split: if_splits)

lemma one_hot_encode_length: "one_hot_encode xs n = Inr enc \<Longrightarrow> length enc = length xs"
  by (induction xs arbitrary: enc) (auto split: option.splits sum.splits)

lemma one_hot_encode_nth:
  "one_hot_encode xs n = Inr enc \<Longrightarrow> i < length xs \<Longrightarrow>
     \<exists>j. py_index n (xs ! i) = Some j \<and> enc ! i = (replicate n 0)[j := 1]"
proof (induction xs arbitrary: enc i)
  case Nil
  then show ?case by simp
next
  case (Cons v xs)
  then show ?case
    by (cases i) (auto split: option.splits sum.splits)
qed

lemma set_column_length: "length (set_column rows xs c) = length rows"
  by (induction rows xs c rule: set_column.induct) auto

lemma set_column_row_length:
  "i < length rows \<Longrightarrow> length (set_column rows xs c ! i) = length (rows ! i)"
proof (induction rows xs c arbitrary: i rule: set_column.induct)
  case (1 row rows x xs column)
  then show ?case by (cases i) auto
qed auto

lemma set_column_other:
  "i < length rows \<Longrightarrow> j \<noteq> c \<Longrightarrow> set_column rows xs c ! i ! j = rows ! i ! j"
proof (induction rows xs c arbitrary: i rule: set_column.induct)
  case (1 row rows x xs column)
  then show ?case by (cases i) auto
qed auto

lemma set_column_same:
  "i < length rows \<Longrightarrow> i < length xs \<Longrightarrow> c < length (rows ! i) \<Longrightarrow>
     set_column rows xs c ! i ! c = xs ! i"
proof (induction rows xs c arbitrary: i rule: set_column.induct)
  case (1 row rows x xs column)
  then show ?case by (cases i) auto
qed auto

lemma encode_feature_Inr:
  "encode_feature X f c = Inr X' \<Longrightarrow>
     X' = set_column X f c \<and> X \<noteq> [] \<and> c < length (X ! 0) \<and> length f \<le> length X"
  by (auto simp: encode_feature_def split: list.splits if_splits)

lemma encode_features_shape:
  "encode_features X fs c = Inr X' \<Longrightarrow>
     length X' = length X \<and> (\<forall>i<length X. length (X' ! i) = length (X ! i))"
proof (induction fs arbitrary: X c)
  case Nil
  then show ?case by simp
next
  case (Cons f fs)
  then obtain X1 where a: "encode_feature X f c = Inr X1" and b: "encode_features X1 fs (Suc c) = Inr X'"
    by (auto split: sum.splits)
  from a have X1: "X1 = set_column X f c" by (simp add: encode_feature_Inr)
  from Cons.IH[OF b] show ?case
    by (simp add: X1 set_column_length set_column_row_length)
qed

lemma encode_features_below:
  "encode_features X fs c = Inr X' \<Longrightarrow> i < length X \<Longrightarrow> j < c \<Longrightarrow> X' ! i ! j = X ! i ! j"
proof (induction fs arbitrary: X c)
  case Nil
  then show ?case by simp
next
  case (Cons f fs)
  then obtain X1 where a: "encode_feature X f c = Inr X1" and b: "encode_features X1 fs (Suc c) = Inr X'"
    by (auto split: sum.splits)
  from a have X1: "X1 = set_column X f c" by (simp add: encode_feature_Inr)
  have "X' ! i ! j = X1 ! i ! j"
    using Cons.IH[OF b, of ] Cons.prems by (simp add: X1 set_column_length)
  then show ?case using Cons.prems by (simp add: X1 set_column_other)
qed

lemma encode_features_column:
  "encode_features X fs c = Inr X' \<Longrightarrow> f < length fs \<Longrightarrow> i < length (fs ! f) \<Longrightarrow>
     (\<forall>r<length X. length (X ! r) = n) \<Longrightarrow>
     i < length X \<and> c + f < n \<and> X' ! i ! (c + f) = fs ! f ! i"
proof (induction fs arbitrary: X c f)
  case Nil
  then show ?case by simp
next
  case (Cons g fs)
  then obtain X1 where a: "encode_feature X g c = Inr X1" and b: "encode_features X1 fs (Suc c) = Inr X'"
    by (auto split: sum.splits)
  from a have X1: "X1 = set_column X g c" and ne: "X \<noteq> []" and c: "c < length (X ! 0)"
    and len: "length g \<le> length X"
    by (simp_all add: encode_feature_Inr)
  have n1: "\<forall>r<length X1. length (X1 ! r) = n"
    using Cons.prems(4) by (simp add: X1 set_column_length set_column_row_length)
  have cn: "c < n" using c ne Cons.prems(4) by (cases X) auto
  show ?case
  proof (cases f)
    case 0
    with Cons.prems have i: "i < length g" by simp
    with len have iX: "i < length X" by simp
    have "X' ! i ! c = X1 ! i ! c"
      using encode_features_below[OF b, of i c] iX by (simp add: X1 set_column_length)
    also have "\<dots> = g ! i"
      using iX i cn Cons.prems(4) by (simp add: X1 set_column_same)
    finally show ?thesis using 0 iX cn by simp
  next
    case (Suc f')
    with Cons.prems have "f' < length fs" "i < length (fs ! f')" by simp_all
    from Cons.IH[OF b this n1] show ?thesis
      using Suc by (simp add: X1 set_column_length)
  qed
qed

lemma pad_sequences_post_short:
  "length s \<le> maxlen \<Longrightarrow> pad_sequences_post maxlen s = s @ replicate (maxlen - length s) 0"
  by (simp add: pad_sequences_post_def)

lemma take_one_hot:
  assumes "nf \<le> n"
  shows "take nf (map (\<lambda>v. Fin (real_of_int v)) ((replicate n 0)[j := 1])) = (replicate nf (Fin 0))[j := Fin 1]"
proof (rule nth_equalityI)
  show "length (take nf (map (\<lambda>v. Fin (real_of_int v)) ((replicate n 0)[j := 1]))) =
        length ((replicate nf (Fin 0))[j := Fin 1])"
    using assms by simp
next
  fix i assume "i < length (take nf (map (\<lambda>v. Fin (real_of_int v)) ((replicate n 0)[j := 1])))"
  then have i: "i < nf" "i < n" using assms by simp_all
  then show "take nf (map (\<lambda>v. Fin (real_of_int v)) ((replicate n 0)[j := 1])) ! i =
        (replicate nf (Fin 0))[j := Fin 1] ! i"
    by (cases "i = j") simp_all
qed

lemma zero_block_replicate: "zero_block nf (replicate nf (Fin 0) @ rest)"
  by (simp add: zero_block_def list_all_iff)

lemma zero_block_one_hot:
  assumes j: "j < nf" and t: "take nf row = (replicate nf (Fin 0))[j := Fin 1]"
  shows "\<not> zero_block nf row"
proof -
  have "Fin 1 \<in> set (take nf row)"
    unfolding t using j by (simp add: set_update_memI)
  moreover have "Fin 1 \<noteq> Fin 0" by simp
  ultimately show ?thesis unfolding zero_block_def list_all_iff by blast
qed

lemma zero_block_take: "take nf row = replicate nf (Fin 0) \<Longrightarrow> zero_block nf row"
  by (simp add: zero_block_def list_all_iff)

lemma one_hot_encode_total:
  "\<forall>v\<in>set xs. 0 \<le> v \<and> v < int n \<Longrightarrow> \<exists>enc. one_hot_encode xs n = Inr enc"
  by (induction xs) (auto simp: py_index_def)

lemma encode_features_total:
  "X \<noteq> [] \<Longrightarrow> \<forall>row\<in>set X. length row = n \<Longrightarrow> c + length fs \<le> n \<Longrightarrow>
     \<forall>f\<in>set fs. length f \<le> length X \<Longrightarrow> \<exists>X'. encode_features X fs c = Inr X'"
proof (induction fs arbitrary: X c)
  case Nil
  then show ?case by simp
next
  case (Cons f fs)
  have c: "c < n" using Cons.prems(3) by simp
  obtain row0 rest where X: "X = row0 # rest" using Cons.prems(1) by (cases X) auto
  have ef: "encode_feature X f c = Inr (set_column X f c)"
    using Cons.prems c by (auto simp: encode_feature_def X)
  have ne: "set_column X f c \<noteq> []"
    using Cons.prems(1) set_column_length[of X f c] by (metis length_0_conv)
  have rows: "\<forall>row\<in>set (set_column X f c). length row = n"
  proof
    fix row assume "row \<in> set (set_column X f c)"
    then obtain i where i: "i < length (set_column X f c)" "row = set_column X f c ! i"
      by (auto simp: in_set_conv_nth)
    then have "i < length X" by (simp add: set_column_length)
    then show "length row = n"
      using i Cons.prems(2) by (simp add: set_column_row_length)
  qed
  have "\<exists>X'. encode_features (set_column X f c) fs (Suc c) = Inr X'"
    using Cons.prems by (intro Cons.IH[OF ne rows]) (auto simp: set_column_length)
  then show ?case by (simp add: ef)
qed

lemma generate_example_total:
  assumes vals: "\<forall>v\<in>set sequence. 0 \<le> v \<and> v < int nf"
    and len: "length sequence \<le> ml"
    and idx: "0 \<le> idx" "idx < int (length sequence)"
    and cols: "nf + length features \<le> n"
    and feats: "\<forall>f\<in>set features. length f \<le> ml"
  shows "\<exists>X y. generate_example sequence features nf n ml idx = Inr (X, y)"
proof -
  define pad where "pad = sequence @ replicate (ml - length sequence) 0"
  have pad: "pad_sequences_post ml sequence = pad"
    using len by (simp add: pad_def pad_sequences_post_short)
  have lpad: "length pad = ml" using len by (simp add: pad_def)
  have nfpos: "0 < nf"
  proof -
    from idx have "sequence \<noteq> []" by auto
    then obtain v where "v \<in> set sequence" by (cases sequence) auto
    with vals show ?thesis by force
  qed
  have mlpos: "0 < ml" using idx len by auto
  have padv: "\<forall>v\<in>set pad. 0 \<le> v \<and> v < int nf"
    using vals nfpos by (auto simp: pad_def)
  then have padv': "\<forall>v\<in>set pad. 0 \<le> v \<and> v < int n" using cols by auto
  from one_hot_encode_total[OF padv] obtain y2 where y2: "one_hot_encode pad nf = Inr y2" by blast
  from one_hot_encode_total[OF padv'] obtain X0 where X0: "one_hot_encode pad n = Inr X0" by blast
  have lX0: "length X0 = ml" using one_hot_encode_length[OF X0] lpad by simp
  have rowsA: "\<forall>row\<in>set (astype_float64 X0). length row = n"
  proof
    fix row assume "row \<in> set (astype_float64 X0)"
    then obtain i where i: "i < ml" "row = astype_float64 X0 ! i"
      using lX0 by (auto simp: in_set_conv_nth astype_float64_def)
    from one_hot_encode_nth[OF X0, of i] i lpad obtain j where
      "X0 ! i = (replicate n 0)[j := 1]" by auto
    then show "length row = n" using i lX0 by (simp add: astype_float64_def)
  qed
  have neA: "astype_float64 X0 \<noteq> []" using lX0 mlpos by (auto simp: astype_float64_def)
  have lA: "length (astype_float64 X0) = ml" using lX0 by (simp add: astype_float64_def)
  from encode_features_total[OF neA rowsA cols] feats lA
  obtain X1 where X1: "encode_features (astype_float64 X0) features nf = Inr X1" by auto
  have rowA: "\<And>i. i < ml \<Longrightarrow> length (astype_float64 X0 ! i) = n"
  proof -
    fix i assume "i < ml"
    then have "astype_float64 X0 ! i \<in> set (astype_float64 X0)" using lA by simp
    then show "length (astype_float64 X0 ! i) = n" using rowsA by blast
  qed
  have sh: "length X1 = ml" "\<forall>i<ml. length (X1 ! i) = n"
    using encode_features_shape[OF X1] lA rowA by auto
  have r: "py_index (length X1) idx = Some (nat idx)" and rlt: "nat idx < ml"
    using idx len sh(1) by (auto simp: py_index_def)
  have "\<exists>X2. mask_row X1 idx nf = Inr X2"
    using r rlt sh(2) cols by (simp add: mask_row_def)
  then show ?thesis
    by (auto simp: generate_example_def pad Let_def y2 X0 X1)
qed

lemma filter_eq_upt: "filter (\<lambda>i. i = r) [0..<m] = (if r < m then [r] else [])"
  by (induction m) auto

lemma get_masked_unique:
  assumes "r < length X" and "\<forall>i<length X. zero_block k (X ! i) \<longleftrightarrow> i = r"
  shows "get_masked X k = Inr r"
proof -
  have "filter (\<lambda>i. zero_block k (X ! i)) [0..<length X] = filter (\<lambda>i. i = r) [0..<length X]"
    using assms(2) by (intro filter_cong) auto
  then show ?thesis using assms(1) by (simp add: get_masked_def filter_eq_upt)
qed

lemma generate_example_rows:
  assumes ex: "generate_example sequence features nf n ml idx = Inr (X, y)"
    and len: "length sequence \<le> ml"
    and idx: "0 \<le> idx" "idx < int (length sequence)"
    and nonneg: "\<forall>v\<in>set sequence. 0 \<le> v"
  shows "\<exists>X2 y2. X = [X2] \<and> y = [y2] \<and> length X2 = ml \<and> length y2 = ml \<and> nf \<le> n \<and>
           (\<forall>i<ml. nat ((sequence @ replicate (ml - length sequence) 0) ! i) < nf \<and>
              length (X2 ! i) = n \<and>
              y2 ! i = (replicate nf 0)[nat ((sequence @ replicate (ml - length sequence) 0) ! i) := 1] \<and>
              take nf (X2 ! i) =
                (if i = nat idx then replicate nf (Fin 0)
                 else (replicate nf (Fin 0))[nat ((sequence @ replicate (ml - length sequence) 0) ! i) := Fin 1]))"
proof -
  define pad where "pad = sequence @ replicate (ml - length sequence) 0"
  have pad: "pad_sequences_post ml sequence = pad"
    using len by (simp add: pad_def pad_sequences_post_short)
  have lpad: "length pad = ml" using len by (simp add: pad_def)
  have pad_nonneg: "\<And>i. i < ml \<Longrightarrow> 0 \<le> pad ! i"
  proof -
    fix i assume "i < ml"
    then have "pad ! i \<in> set pad" using lpad by simp
    then show "0 \<le> pad ! i" using nonneg by (auto simp: pad_def)
  qed
  from ex obtain y2 X0 X1 X2 where
    y2: "one_hot_encode pad nf = Inr y2" and
    X0: "one_hot_encode pad n = Inr X0" and
    X1: "encode_features (astype_float64 X0) features nf = Inr X1" and
    X2: "mask_row X1 idx nf = Inr X2" and
    res: "X = [X2]" "y = [y2]"
    by (auto simp: generate_example_def pad Let_def split: sum.splits)
  have ly2: "length y2 = ml" using one_hot_encode_length[OF y2] lpad by simp
  have lX0: "length X0 = ml" using one_hot_encode_length[OF X0] lpad by simp
  have lA: "length (astype_float64 X0) = ml" using lX0 by (simp add: astype_float64_def)
  have lX1: "length X1 = ml" using encode_features_shape[OF X1] lA by simp
  have r: "py_index (length X1) idx = Some (nat idx)" and rlt: "nat idx < ml"
    using idx len lX1 by (auto simp: py_index_def)
  from X2 r have nfle: "nf \<le> length (X1 ! nat idx)"
    and X2eq: "X2 = X1[nat idx := replicate nf (Fin 0) @ drop nf (X1 ! nat idx)]"
    by (auto simp: mask_row_def split: if_splits)
  have X0row: "\<And>i. i < ml \<Longrightarrow> X0 ! i = (replicate n 0)[nat (pad ! i) := 1] \<and> nat (pad ! i) < n"
  proof -
    fix i assume i: "i < ml"
    from one_hot_encode_nth[OF X0, of i] i lpad obtain j where
      "py_index n (pad ! i) = Some j" "X0 ! i = (replicate n 0)[j := 1]" by auto
    with py_index_nonneg[OF pad_nonneg[OF i]] show "X0 ! i = (replicate n 0)[nat (pad ! i) := 1] \<and> nat (pad ! i) < n"
      by auto
  qed
  have y2row: "\<And>i. i < ml \<Longrightarrow> y2 ! i = (replicate nf 0)[nat (pad ! i) := 1] \<and> nat (pad ! i) < nf"
  proof -
    fix i assume i: "i < ml"
    from one_hot_encode_nth[OF y2, of i] i lpad obtain j where
      "py_index nf (pad ! i) = Some j" "y2 ! i = (replicate nf 0)[j := 1]" by auto
    with py_index_nonneg[OF pad_nonneg[OF i]] show "y2 ! i = (replicate nf 0)[nat (pad ! i) := 1] \<and> nat (pad ! i) < nf"
      by auto
  qed
  have Arow: "\<And>i. i < ml \<Longrightarrow> astype_float64 X0 ! i = map (\<lambda>v. Fin (real_of_int v)) ((replicate n 0)[nat (pad ! i) := 1])"
    using X0row lX0 by (simp add: astype_float64_def)
  have lX1row: "\<And>i. i < ml \<Longrightarrow> length (X1 ! i) = n"
    using encode_features_shape[OF X1] lA Arow by simp
  have nfn: "nf \<le> n" using nfle lX1row[OF rlt] by simp
  have X1take: "\<And>i. i < ml \<Longrightarrow> take nf (X1 ! i) = (replicate nf (Fin 0))[nat (pad ! i) := Fin 1]"
  proof -
    fix i assume i: "i < ml"
    have "take nf (X1 ! i) = take nf (astype_float64 X0 ! i)"
    proof (rule nth_equalityI)
      show "length (take nf (X1 ! i)) = length (take nf (astype_float64 X0 ! i))"
        using lX1row[OF i] Arow[OF i] by simp
    next
      fix k assume "k < length (take nf (X1 ! i))"
      then have k: "k < nf" by simp
      then show "take nf (X1 ! i) ! k = take nf (astype_float64 X0 ! i) ! k"
        using encode_features_below[OF X1, of i k] i lA by simp
    qed
    also have "\<dots> = (replicate nf (Fin 0))[nat (pad ! i) := Fin 1]"
      using Arow[OF i] take_one_hot[OF nfn] by simp
    finally show "take nf (X1 ! i) = (replicate nf (Fin 0))[nat (pad ! i) := Fin 1]" .
  qed
  have rows: "\<forall>i<ml. nat (pad ! i) < nf \<and> length (X2 ! i) = n \<and>
      y2 ! i = (replicate nf 0)[nat (pad ! i) := 1] \<and>
      take nf (X2 ! i) = (if i = nat idx then replicate nf (Fin 0)
                          else (replicate nf (Fin 0))[nat (pad ! i) := Fin 1])"
  proof (intro allI impI)
    fix i assume i: "i < ml"
    have a: "length (X2 ! i) = n"
      using i lX1 lX1row[OF i] nfn by (cases "i = nat idx") (auto simp: X2eq)
    have b: "take nf (X2 ! i) = (if i = nat idx then replicate nf (Fin 0)
                          else (replicate nf (Fin 0))[nat (pad ! i) := Fin 1])"
      using i lX1 X1take[OF i] by (cases "i = nat idx") (auto simp: X2eq)
    show "nat (pad ! i) < nf \<and> length (X2 ! i) = n \<and>
      y2 ! i = (replicate nf 0)[nat (pad ! i) := 1] \<and>
      take nf (X2 ! i) = (if i = nat idx then replicate nf (Fin 0)
                          else (replicate nf (Fin 0))[nat (pad ! i) := Fin 1])"
      using a b y2row[OF i] by simp
  qed
  have "length X2 = ml" using lX1 by (simp add: X2eq)
  with rows res ly2 nfn show ?thesis unfolding pad_def by blast
qed

lemma generate_example_eval_small:
  "generate_example [1, 2] [] 3 3 3 1 =
     Inr ([[[Fin 0, Fin 1, Fin 0], [Fin 0, Fin 0, Fin 0], [Fin 1, Fin 0, Fin 0]]],
          [[[0, 1, 0], [0, 0, 1], [1, 0, 0]]])"
  by code_simp

section \<open>The masking invariant\<close>

text \<open>
  Claim C1, as amended. For every example returned by \<^verbatim>\<open>generate_example\<close> on a sequence
  of non-negative categories no longer than \<^verbatim>\<open>max_length\<close>, with a mask index inside the
  sequence: among all \<^verbatim>\<open>max_length\<close> rows of the input tensor exactly one has an all-zero
  category block, the row \<^verbatim>\<open>idx\<close>; every padding row holds the one-hot row of category 0
  (column 0 is 1, the block is not all-zero); every other row of the sequence keeps the
  one-hot row of its category; and the row \<^verbatim>\<open>idx\<close> of the target holds the one-hot row of
  the category that was masked.
\<close>

theorem generate_example_masking:
  assumes "generate_example sequence features num_functions n_features max_length idx = Inr (X, y)"
    and "length sequence \<le> max_length"
    and "0 \<le> idx" and "idx < int (length sequence)"
    and "\<forall>v\<in>set sequence. 0 \<le> v"
  shows "length X = 1 \<and> length (X ! 0) = max_length \<and>
         (\<forall>i<max_length. zero_block num_functions (X ! 0 ! i) \<longleftrightarrow> i = nat idx) \<and>
         (\<forall>i<max_length. length sequence \<le> i \<longrightarrow>
            take num_functions (X ! 0 ! i) = (replicate num_functions (Fin 0))[0 := Fin 1]) \<and>
         (\<forall>i<length sequence. i \<noteq> nat idx \<longrightarrow>
            nat (sequence ! i) < num_functions \<and>
            take num_functions (X ! 0 ! i) =
              (replicate num_functions (Fin 0))[nat (sequence ! i) := Fin 1]) \<and>
         nat (sequence ! nat idx) < num_functions \<and>
         y ! 0 ! nat idx = (replicate num_functions 0)[nat (sequence ! nat idx) := 1]"
proof -
  define pad where "pad = sequence @ replicate (max_length - length sequence) 0"
  from generate_example_rows[OF assms] obtain X2 y2 where
    X: "X = [X2]" and y: "y = [y2]" and lX: "length X2 = max_length" and
    rows: "\<forall>i<max_length. nat (pad ! i) < num_functions \<and>
              length (X2 ! i) = n_features \<and>
              y2 ! i = (replicate num_functions 0)[nat (pad ! i) := 1] \<and>
              take num_functions (X2 ! i) =
                (if i = nat idx then replicate num_functions (Fin 0)
                 else (replicate num_functions (Fin 0))[nat (pad ! i) := Fin 1])"
    unfolding pad_def by blast
  note R = rows[rule_format]
  have r: "nat idx < length sequence" using assms(3,4) by simp
  have padl: "\<And>i. i < length sequence \<Longrightarrow> pad ! i = sequence ! i"
    by (simp add: pad_def nth_append)
  have padr: "\<And>i. length sequence \<le> i \<Longrightarrow> i < max_length \<Longrightarrow> pad ! i = 0"
    by (simp add: pad_def nth_append)
  have a: "\<forall>i<max_length. zero_block num_functions (X ! 0 ! i) \<longleftrightarrow> i = nat idx"
  proof (intro allI impI)
    fix i assume i: "i < max_length"
    show "zero_block num_functions (X ! 0 ! i) \<longleftrightarrow> i = nat idx"
    proof (cases "i = nat idx")
      case True
      with R[OF i] have "take num_functions (X2 ! i) = replicate num_functions (Fin 0)" by simp
      from zero_block_take[OF this] True show ?thesis by (simp add: X)
    next
      case False
      with R[OF i] have "nat (pad ! i) < num_functions"
        "take num_functions (X2 ! i) = (replicate num_functions (Fin 0))[nat (pad ! i) := Fin 1]"
        by simp_all
      from zero_block_one_hot[OF this] False show ?thesis by (simp add: X)
    qed
  qed
  have b: "\<forall>i<max_length. length sequence \<le> i \<longrightarrow>
            take num_functions (X ! 0 ! i) = (replicate num_functions (Fin 0))[0 := Fin 1]"
  proof (intro allI impI)
    fix i assume i: "i < max_length" "length sequence \<le> i"
    have ne: "i \<noteq> nat idx" using i r by simp
    from R[OF i(1)] ne have "take num_functions (X2 ! i) =
        (replicate num_functions (Fin 0))[nat (pad ! i) := Fin 1]" by simp
    then show "take num_functions (X ! 0 ! i) = (replicate num_functions (Fin 0))[0 := Fin 1]"
      using padr[OF i(2) i(1)] by (simp add: X)
  qed
  have c: "\<forall>i<length sequence. i \<noteq> nat idx \<longrightarrow>
            nat (sequence ! i) < num_functions \<and>
            take num_functions (X ! 0 ! i) =
              (replicate num_functions (Fin 0))[nat (sequence ! i) := Fin 1]"
  proof (intro allI impI)
    fix i assume i: "i < length sequence" "i \<noteq> nat idx"
    have im: "i < max_length" using i assms(2) by simp
    from R[OF im] i(2) have "nat (pad ! i) < num_functions \<and> take num_functions (X2 ! i) =
        (replicate num_functions (Fin 0))[nat (pad ! i) := Fin 1]" by simp
    then show "nat (sequence ! i) < num_functions \<and>
            take num_functions (X ! 0 ! i) =
              (replicate num_functions (Fin 0))[nat (sequence ! i) := Fin 1]"
      using padl[OF i(1)] by (simp add: X)
  qed
  have rm: "nat idx < max_length" using r assms(2) by simp
  from R[OF rm] have "nat (pad ! nat idx) < num_functions \<and>
      y2 ! nat idx = (replicate num_functions 0)[nat (pad ! nat idx) := 1]" by simp
  then have d: "nat (sequence ! nat idx) < num_functions \<and>
         y ! 0 ! nat idx = (replicate num_functions 0)[nat (sequence ! nat idx) := 1]"
    using padl[OF r] by (simp add: y)
  have e1: "length X = 1" by (simp add: X)
  have e2: "length (X ! 0) = max_length" using lX by (simp add: X)
  from d have d1: "nat (sequence ! nat idx) < num_functions"
    and d2: "y ! 0 ! nat idx = (replicate num_functions 0)[nat (sequence ! nat idx) := 1]"
    by simp_all
  from e1 e2 a b c d1 d2 show ?thesis by (intro conjI)
qed

theorem generate_example_masking_witness:
  "generate_example [1, 2] [] 3 3 3 1 = Inr ([[[Fin 0, Fin 1, Fin 0], [Fin 0, Fin 0, Fin 0], [Fin 1, Fin 0, Fin 0]]], [[[0, 1, 0], [0, 0, 1], [1, 0, 0]]]) \<and>
   zero_block 3 ([[[Fin 0, Fin 1, Fin 0], [Fin 0, Fin 0, Fin 0], [Fin 1, Fin 0, Fin 0]]] ! 0 ! 1) \<and>
   \<not> zero_block 3 ([[[Fin 0, Fin 1, Fin 0], [Fin 0, Fin 0, Fin 0], [Fin 1, Fin 0, Fin 0]]] ! 0 ! 0) \<and>
   [[[0, 1, 0], [0, 0, 1], [1, 0, 0]]] ! 0 ! nat 1 = (replicate 3 (0 :: int))[nat ([1, 2] ! nat 1) := 1]"
proof -
  have h: "length [1, 2 :: int] \<le> 3" "(0::int) \<le> 1" "(1::int) < int (length [1, 2 :: int])"
    "\<forall>v\<in>set [1, 2 :: int]. 0 \<le> v"
    by simp_all
  note T = generate_example_masking[OF generate_example_eval_small h]
  note Z = T[THEN conjunct2, THEN conjunct2, THEN conjunct1, rule_format]
  have z1: "zero_block 3 ([[[Fin 0, Fin 1, Fin 0], [Fin 0, Fin 0, Fin 0], [Fin 1, Fin 0, Fin 0]]] ! 0 ! 1)"
    using Z[of 1] by simp
  have z0: "\<not> zero_block 3 ([[[Fin 0, Fin 1, Fin 0], [Fin 0, Fin 0, Fin 0], [Fin 1, Fin 0, Fin 0]]] ! 0 ! 0)"
    using Z[of 0] by simp
  have t: "[[[0, 1, 0], [0, 0, 1], [1, 0, 0]]] ! 0 ! nat 1 = (replicate 3 (0 :: int))[nat ([1, 2] ! nat 1) := 1]"
    by (rule T[THEN conjunct2, THEN conjunct2, THEN conjunct2, THEN conjunct2, THEN conjunct2, THEN conjunct2])
  from generate_example_eval_small z1 z0 t show ?thesis by (intro conjI)
qed

text \<open>
  The claim as stated also asks every padding row to have an all-zero category block.
  With a sequence of two genes padded to three rows, row 2 is padding and its block is
  the one-hot row of category 0.
\<close>

theorem generate_example_padding_counterexample:
  "generate_example [1, 2] [] 3 3 3 1 = Inr ([[[Fin 0, Fin 1, Fin 0], [Fin 0, Fin 0, Fin 0], [Fin 1, Fin 0, Fin 0]]], [[[0, 1, 0], [0, 0, 1], [1, 0, 0]]]) \<and>
   length [1, 2 :: int] \<le> 2 \<and>
   \<not> zero_block 3 ([[[Fin 0, Fin 1, Fin 0], [Fin 0, Fin 0, Fin 0], [Fin 1, Fin 0, Fin 0]]] ! 0 ! 2)"
proof -
  have "\<not> zero_block 3 ([[[Fin 0, Fin 1, Fin 0], [Fin 0, Fin 0, Fin 0], [Fin 1, Fin 0, Fin 0]]] ! 0 ! 2)" by (simp add: zero_block_def)
  with generate_example_eval_small show ?thesis by simp
qed

section \<open>Recovering the masked index\<close>

lemma generate_example_eval_features:
  "generate_example [1, 0, 2] [[Fin 1, Fin 0, Fin 1]] 3 4 5 2 =
     Inr ([[[Fin 0, Fin 1, Fin 0, Fin 1], [Fin 1, Fin 0, Fin 0, Fin 0], [Fin 0, Fin 0, Fin 0, Fin 1],
            [Fin 1, Fin 0, Fin 0, Fin 0], [Fin 1, Fin 0, Fin 0, Fin 0]]],
          [[[0, 1, 0], [1, 0, 0], [0, 0, 1], [1, 0, 0], [1, 0, 0]]])"
  by code_simp

text \<open>
  Claim C10. For a category sequence with values in \<^verbatim>\<open>[0, num_functions)\<close>, no longer than
  \<^verbatim>\<open>max_length\<close>, and a mask index inside the sequence, \<^verbatim>\<open>get_masked\<close> applied to the
  example that \<^verbatim>\<open>generate_example\<close> returns (the features are written by \<^verbatim>\<open>encode_feature\<close>
  to the columns from \<^verbatim>\<open>num_functions\<close> on) returns the mask index: the masked row is the
  only row whose first \<^verbatim>\<open>num_functions\<close> columns are all zero.
\<close>

theorem get_masked_generate_example:
  assumes "generate_example sequence features num_functions n_features max_length idx = Inr (X, y)"
    and "\<forall>v\<in>set sequence. 0 \<le> v \<and> v < int num_functions"
    and "length sequence \<le> max_length"
    and "0 \<le> idx" and "idx < int (length sequence)"
  shows "get_masked (X ! 0) num_functions = Inr (nat idx)"
proof -
  have nonneg: "\<forall>v\<in>set sequence. 0 \<le> v" using assms(2) by simp
  define pad where "pad = sequence @ replicate (max_length - length sequence) 0"
  from generate_example_rows[OF assms(1,3,4,5) nonneg] obtain X2 y2 where
    X: "X = [X2]" and y: "y = [y2]" and lX: "length X2 = max_length" and
    rows: "\<forall>i<max_length. nat (pad ! i) < num_functions \<and>
              length (X2 ! i) = n_features \<and>
              y2 ! i = (replicate num_functions 0)[nat (pad ! i) := 1] \<and>
              take num_functions (X2 ! i) =
                (if i = nat idx then replicate num_functions (Fin 0)
                 else (replicate num_functions (Fin 0))[nat (pad ! i) := Fin 1])"
    unfolding pad_def by blast
  note R = rows[rule_format]
  have r: "nat idx < length X2" using assms(3,4,5) lX by simp
  have "\<forall>i<length X2. zero_block num_functions (X2 ! i) \<longleftrightarrow> i = nat idx"
  proof (intro allI impI)
    fix i assume "i < length X2"
    then have i: "i < max_length" using lX by simp
    show "zero_block num_functions (X2 ! i) \<longleftrightarrow> i = nat idx"
    proof (cases "i = nat idx")
      case True
      with R[OF i] have "take num_functions (X2 ! i) = replicate num_functions (Fin 0)" by simp
      from zero_block_take[OF this] True show ?thesis by simp
    next
      case False
      with R[OF i] have "nat (pad ! i) < num_functions"
        "take num_functions (X2 ! i) = (replicate num_functions (Fin 0))[nat (pad ! i) := Fin 1]"
        by simp_all
      from zero_block_one_hot[OF this] False show ?thesis by simp
    qed
  qed
  from get_masked_unique[OF r this] show ?thesis by (simp add: X)
qed

theorem get_masked_generate_example_witness:
  "generate_example [1, 0, 2] [[Fin 1, Fin 0, Fin 1]] 3 4 5 2 =
     Inr ([[[Fin 0, Fin 1, Fin 0, Fin 1], [Fin 1, Fin 0, Fin 0, Fin 0], [Fin 0, Fin 0, Fin 0, Fin 1],
            [Fin 1, Fin 0, Fin 0, Fin 0], [Fin 1, Fin 0, Fin 0, Fin 0]]],
          [[[0, 1, 0], [1, 0, 0], [0, 0, 1], [1, 0, 0], [1, 0, 0]]]) \<and>
   get_masked ([[[Fin 0, Fin 1, Fin 0, Fin 1], [Fin 1, Fin 0, Fin 0, Fin 0], [Fin 0, Fin 0, Fin 0, Fin 1],
            [Fin 1, Fin 0, Fin 0, Fin 0], [Fin 1, Fin 0, Fin 0, Fin 0]]] ! 0) 3 = Inr (nat 2)"
proof -
  have h: "\<forall>v\<in>set [1, 0, 2 :: int]. 0 \<le> v \<and> v < int 3" "length [1, 0, 2 :: int] \<le> 5"
    "(0::int) \<le> 2" "(2::int) < int (length [1, 0, 2 :: int])"
    by simp_all
  from generate_example_eval_features get_masked_generate_example[OF generate_example_eval_features h]
  show ?thesis by (intro conjI)
qed

section \<open>Dictionaries as association lists\<close>

lemma update_fresh: "k \<notin> fst ` set al \<Longrightarrow> AList.update k v al = al @ [(k, v)]"
  by (induction al) auto

lemma map_add_upd_left_one: "(f(k \<mapsto> v) ++ m) z = (f ++ ([k \<mapsto> v] ++ m)) z"
  by (cases "m z") (simp_all add: map_add_def)

lemma py_dict_acc_map_of:
  "map_of (foldl (\<lambda>d (k, v). AList.update k v d) acc kvs) = map_of acc ++ map_of (rev kvs)"
proof (induction kvs arbitrary: acc)
  case Nil
  show ?case by simp
next
  case (Cons x kvs)
  obtain k v where x: "x = (k, v)" by (cases x)
  have "map_of (foldl (\<lambda>d (k, v). AList.update k v d) acc (x # kvs)) =
        map_of (foldl (\<lambda>d (k, v). AList.update k v d) (AList.update k v acc) kvs)"
    by (simp add: x)
  also have "\<dots> = map_of (AList.update k v acc) ++ map_of (rev kvs)"
    by (rule Cons.IH)
  also have "\<dots> = (map_of acc)(k \<mapsto> v) ++ map_of (rev kvs)"
    by (simp only: update_conv')
  also have "\<dots> = map_of acc ++ ([k \<mapsto> v] ++ map_of (rev kvs))"
    by (rule ext) (rule map_add_upd_left_one)
  also have "[k \<mapsto> v] ++ map_of (rev kvs) = map_of (rev (x # kvs))"
    by (simp add: x)
  finally show ?case .
qed

lemma py_dict_map_of: "map_of (py_dict kvs) = map_of (rev kvs)"
  by (simp add: py_dict_def py_dict_acc_map_of)

lemma py_dict_acc_distinct:
  "distinct (map fst acc) \<Longrightarrow> distinct (map fst (foldl (\<lambda>d (k, v). AList.update k v d) acc kvs))"
  by (induction kvs arbitrary: acc) (auto simp: distinct_update)

lemma py_dict_distinct: "distinct (map fst (py_dict kvs))"
  by (simp add: py_dict_def py_dict_acc_distinct)

lemma py_dict_acc_fresh:
  "distinct (map fst (acc @ kvs)) \<Longrightarrow> foldl (\<lambda>d (k, v). AList.update k v d) acc kvs = acc @ kvs"
proof (induction kvs arbitrary: acc)
  case Nil
  show ?case by simp
next
  case (Cons x kvs)
  obtain k v where x: "x = (k, v)" by (cases x)
  have "k \<notin> fst ` set acc" using Cons.prems by (auto simp: x)
  then have up: "AList.update k v acc = acc @ [(k, v)]" by (rule update_fresh)
  have "distinct (map fst ((acc @ [(k, v)]) @ kvs))" using Cons.prems by (simp add: x)
  from Cons.IH[OF this] show ?case by (simp add: x up)
qed

lemma py_dict_distinct_id: "distinct (map fst kvs) \<Longrightarrow> py_dict kvs = kvs"
  using py_dict_acc_fresh[of "[]" kvs] by (simp add: py_dict_def)

lemma zip_map_self: "zip (map h xs) xs = map (\<lambda>x. (h x, x)) xs"
  by (induction xs) auto

lemma map_of_rev_last:
  "map_of (rev (map (\<lambda>x. (h x, x)) xs)) a = Some x \<Longrightarrow>
     \<exists>before after. xs = before @ x # after \<and> h x = a \<and> (\<forall>x'\<in>set after. h x' \<noteq> a)"
proof (induction xs)
  case Nil
  then show ?case by simp
next
  case (Cons y ys)
  show ?case
  proof (cases "map_of (rev (map (\<lambda>x. (h x, x)) ys)) a")
    case None
    with Cons.prems have "h y = a" "x = y"
      by (auto simp: map_add_def split: if_splits)
    moreover from None have "\<forall>x'\<in>set ys. h x' \<noteq> a"
      by (auto simp: map_of_eq_None_iff image_iff)
    ultimately show ?thesis
      by (intro exI[of _ "[]"] exI[of _ ys]) simp
  next
    case (Some z)
    with Cons.prems have "z = x" by (simp add: map_add_def)
    with Some Cons.IH obtain before after where
      "ys = before @ x # after" "h x = a" "\<forall>x'\<in>set after. h x' \<noteq> a" by blast
    then show ?thesis
      by (intro exI[of _ "y # before"] exI[of _ after]) simp
  qed
qed

section \<open>The filter of \<^verbatim>\<open>generate_data\<close>\<close>

lemma filter_genomes_data:
  assumes "distinct (map fst genomes)" and "fst ` set genomes \<inter> fst ` set data = {}"
  shows "snd (snd (filter_genomes enc genomes (included, not_included, data))) =
     data @ filter (\<lambda>(g, this_genome).
          4 \<le> card (set (map enc (phrogs this_genome)) - {Some 0}) \<and>
          (hd (map enc (phrogs this_genome)) = Some 1 \<or>
           last (map enc (phrogs this_genome)) = Some 1)) genomes"
  using assms
proof (induction genomes arbitrary: included not_included data)
  case Nil
  show ?case by simp
next
  case (Cons x genomes)
  obtain g this_genome where x: "x = (g, this_genome)" by (cases x)
  have d: "distinct (map fst genomes)" and g1: "g \<notin> fst ` set genomes"
    and g2: "g \<notin> fst ` set data" and disj: "fst ` set genomes \<inter> fst ` set data = {}"
    using Cons.prems by (auto simp: x)
  have up: "AList.update g this_genome data = data @ [(g, this_genome)]"
    using g2 by (rule update_fresh)
  have disj': "fst ` set genomes \<inter> fst ` set (data @ [(g, this_genome)]) = {}"
    using disj g1 by auto
  note IH1 = Cons.IH[OF d disj] and IH2 = Cons.IH[OF d disj']
  show ?case by (simp add: x Let_def up IH1 IH2)
qed

text \<open>
  Claim C2. Over the genomes that the loop of \<^verbatim>\<open>generate_data\<close> visits (distinct
  identifiers), the dictionary \<^verbatim>\<open>data\<close> it builds holds exactly the genomes, in input
  order, for which (a) the set of encoded categories without 0 has at least four
  elements and (b) category 1 is the first or the last entry of the category sequence;
  every other genome is absent.
\<close>

theorem filter_genomes_keeps:
  assumes "distinct (map fst genomes)"
  shows "snd (snd (filter_genomes phrog_encoding genomes (0, 0, []))) =
     filter (\<lambda>(g, this_genome).
          4 \<le> card (set (map phrog_encoding (phrogs this_genome)) - {Some 0}) \<and>
          (hd (map phrog_encoding (phrogs this_genome)) = Some 1 \<or>
           last (map phrog_encoding (phrogs this_genome)) = Some 1)) genomes"
  using filter_genomes_data[OF assms, of "[]" phrog_encoding 0 0] by simp

theorem filter_genomes_keeps_witness:
  "snd (snd (filter_genomes Some
      [(''a'', \<lparr>genome_length = 100, phrogs = [1, 2, 3, 4, 5 :: int], protein_id = [], sense = [], position = []\<rparr>
       ), (''b'', \<lparr>genome_length = 100, phrogs = [3, 1, 5, 0, 2], protein_id = [], sense = [], position = []\<rparr>
       ), (''c'', \<lparr>genome_length = 100, phrogs = [1, 2, 3, 0], protein_id = [], sense = [], position = []\<rparr>
       ), (''d'', \<lparr>genome_length = 100, phrogs = [2, 3, 4, 5, 1], protein_id = [], sense = [], position = []\<rparr>)] (0, 0, []))) =
     [(''a'', \<lparr>genome_length = 100, phrogs = [1, 2, 3, 4, 5 :: int], protein_id = [], sense = [], position = []\<rparr>
       ), (''d'', \<lparr>genome_length = 100, phrogs = [2, 3, 4, 5, 1], protein_id = [], sense = [], position = []\<rparr>)]"
proof -
  have h: "distinct (map fst [(''a'', \<lparr>genome_length = 100, phrogs = [1, 2, 3, 4, 5 :: int], protein_id = [], sense = [], position = []\<rparr>
       ), (''b'', \<lparr>genome_length = 100, phrogs = [3, 1, 5, 0, 2], protein_id = [], sense = [], position = []\<rparr>
       ), (''c'', \<lparr>genome_length = 100, phrogs = [1, 2, 3, 0], protein_id = [], sense = [], position = []\<rparr>
       ), (''d'', \<lparr>genome_length = 100, phrogs = [2, 3, 4, 5, 1], protein_id = [], sense = [], position = []\<rparr>)])"
    by simp
  show ?thesis
    unfolding filter_genomes_keeps[OF h] by (simp add: card_insert_if)
qed

section \<open>Orientation of the genomes\<close>

lemma reflect_positions_spans:
  "reflect_positions len pos = map (\<lambda>(s, e). (\<bar>len - e\<bar>, \<bar>len - s\<bar>)) (rev pos)"
  unfolding reflect_positions_def
  by (rule map_cong[OF refl]) (auto simp: abs_minus_commute)

lemma flip_genomes_loop_eq:
  assumes "distinct (map fst d)" and "fst ` set d \<inter> fst ` set data = {}"
    and "\<forall>x\<in>set d. flip_genome enc (snd x) = Inr (f (snd x))"
  shows "flip_genomes_loop enc d data = Inr (data @ map (\<lambda>x. (fst x, f (snd x))) d)"
  using assms
proof (induction d arbitrary: data)
  case Nil
  show ?case by simp
next
  case (Cons x d)
  obtain key genome where x: "x = (key, genome)" by (cases x)
  have fg: "flip_genome enc genome = Inr (f genome)" using Cons.prems(3) by (simp add: x)
  have dd: "distinct (map fst d)" and k1: "key \<notin> fst ` set d"
    and k2: "key \<notin> fst ` set data" and disj: "fst ` set d \<inter> fst ` set data = {}"
    using Cons.prems(1,2) by (auto simp: x)
  have up: "AList.update key (f genome) data = data @ [(key, f genome)]"
    using k2 by (rule update_fresh)
  have disj': "fst ` set d \<inter> fst ` set (data @ [(key, f genome)]) = {}"
    using disj k1 by auto
  have rest: "\<forall>x\<in>set d. flip_genome enc (snd x) = Inr (f (snd x))"
    using Cons.prems(3) by simp
  show ?case using Cons.IH[OF dd disj' rest] by (simp add: x fg up)
qed

text \<open>
  Claim C3, as amended. On a dictionary of genomes that all have at least one gene,
  \<^verbatim>\<open>flip_genomes\<close> keeps every key in place and reverses a genome exactly when category 1
  is at its last gene position, whatever its first category is: the gene order (and with
  it the category sequence) and the protein identifiers are reversed, every strand
  \<^verbatim>\<open>+\<close> becomes \<^verbatim>\<open>-\<close> and every other strand becomes \<^verbatim>\<open>+\<close>, and the spans are
  reversed with \<open>(s, e)\<close> mapped to \<open>(|length - e|, |length - s|)\<close>. Every other genome
  is returned unchanged.
\<close>

theorem flip_genomes_orientation:
  assumes "distinct (map fst training_data)"
    and "\<forall>x\<in>set training_data. phrogs (snd x) \<noteq> []"
  shows "flip_genomes phrog_encoding training_data =
     Inr (map (\<lambda>(key, genome).
            (key,
             if last (map phrog_encoding (phrogs genome)) = Some 1
             then \<lparr>genome_length = genome_length genome,
                   phrogs = rev (phrogs genome),
                   protein_id = rev (protein_id genome),
                   sense = map (\<lambda>i. if i = ''+'' then ''-'' else ''+'') (rev (sense genome)),
                   position = map (\<lambda>(s, e). (\<bar>genome_length genome - e\<bar>, \<bar>genome_length genome - s\<bar>))
                                (rev (position genome))\<rparr>
             else genome))
          training_data)"
proof -
  define f where "f = (\<lambda>genome.
             if last (map phrog_encoding (phrogs genome)) = Some 1
             then \<lparr>genome_length = genome_length genome,
                   phrogs = rev (phrogs genome),
                   protein_id = rev (protein_id genome),
                   sense = map (\<lambda>i. if i = ''+'' then ''-'' else ''+'') (rev (sense genome)),
                   position = map (\<lambda>(s, e). (\<bar>genome_length genome - e\<bar>, \<bar>genome_length genome - s\<bar>))
                                (rev (position genome))\<rparr>
             else genome)"
  have "\<forall>x\<in>set training_data. flip_genome phrog_encoding (snd x) = Inr (f (snd x))"
    using assms(2) by (simp add: flip_genome_def f_def Let_def reflect_positions_spans)
  from flip_genomes_loop_eq[OF assms(1) _ this, of "[]"]
  have "flip_genomes phrog_encoding training_data =
      Inr (map (\<lambda>x. (fst x, f (snd x))) training_data)"
    by (simp add: flip_genomes_def)
  also have "map (\<lambda>x. (fst x, f (snd x))) training_data =
      map (\<lambda>(key, genome). (key, f genome)) training_data"
    by (simp add: case_prod_unfold)
  finally show ?thesis unfolding f_def .
qed

theorem flip_genomes_orientation_witness:
  "flip_genomes Some
     [(''a'', \<lparr>genome_length = 50, phrogs = [2, 3, 1 :: int], protein_id = [''p1'', ''p2'', ''p3''], sense = [''+'', ''+'', ''-''], position = [(0, 10), (20, 30), (45, 50)]\<rparr>),
      (''b'', \<lparr>genome_length = 50, phrogs = [1, 2, 3], protein_id = [''q1'', ''q2'', ''q3''], sense = [''+'', ''-'', ''+''], position = [(5, 10), (20, 30), (40, 45)]\<rparr>)] =
   Inr [(''a'', \<lparr>genome_length = 50, phrogs = [1, 3, 2], protein_id = [''p3'', ''p2'', ''p1''], sense = [''+'', ''-'', ''-''], position = [(0, 5), (20, 30), (40, 50)]\<rparr>),
        (''b'', \<lparr>genome_length = 50, phrogs = [1, 2, 3], protein_id = [''q1'', ''q2'', ''q3''], sense = [''+'', ''-'', ''+''], position = [(5, 10), (20, 30), (40, 45)]\<rparr>)]"
proof -
  have h1: "distinct (map fst
     [(''a'', \<lparr>genome_length = 50, phrogs = [2, 3, 1 :: int], protein_id = [''p1'', ''p2'', ''p3''], sense = [''+'', ''+'', ''-''], position = [(0, 10), (20, 30), (45, 50)]\<rparr>),
      (''b'', \<lparr>genome_length = 50, phrogs = [1, 2, 3], protein_id = [''q1'', ''q2'', ''q3''], sense = [''+'', ''-'', ''+''], position = [(5, 10), (20, 30), (40, 45)]\<rparr>)])"
    by simp
  have h2: "\<forall>x\<in>set
     [(''a'', \<lparr>genome_length = 50, phrogs = [2, 3, 1 :: int], protein_id = [''p1'', ''p2'', ''p3''], sense = [''+'', ''+'', ''-''], position = [(0, 10), (20, 30), (45, 50)]\<rparr>),
      (''b'', \<lparr>genome_length = 50, phrogs = [1, 2, 3], protein_id = [''q1'', ''q2'', ''q3''], sense = [''+'', ''-'', ''+''], position = [(5, 10), (20, 30), (40, 45)]\<rparr>)]. phrogs (snd x) \<noteq> []"
    by simp
  show ?thesis
    unfolding flip_genomes_orientation[OF h1 h2] by simp
qed

text \<open>
  The claim as stated leaves a genome unchanged when category 1 is at both ends. The
  test of \<^verbatim>\<open>flip_genomes\<close> looks at the last category only, so such a genome is reversed.
\<close>

theorem flip_genomes_both_ends_counterexample:
  "hd (map Some [1, 2, 1 :: int]) = Some 1 \<and> last (map Some [1, 2, 1 :: int]) = Some 1 \<and>
   flip_genomes Some
     [(''a'', \<lparr>genome_length = 50, phrogs = [1, 2, 1 :: int], protein_id = [''p1'', ''p2'', ''p3''], sense = [''+'', ''+'', ''-''], position = [(0, 10), (20, 30), (45, 50)]\<rparr>)] =
   Inr [(''a'', \<lparr>genome_length = 50, phrogs = [1, 2, 1], protein_id = [''p3'', ''p2'', ''p1''], sense = [''+'', ''-'', ''-''], position = [(0, 5), (20, 30), (40, 50)]\<rparr>)] \<and>
   \<lparr>genome_length = 50, phrogs = [1, 2, 1], protein_id = [''p3'', ''p2'', ''p1''], sense = [''+'', ''-'', ''-''], position = [(0, 5), (20, 30), (40, 50)]\<rparr> \<noteq>
   \<lparr>genome_length = 50, phrogs = [1, 2, 1 :: int], protein_id = [''p1'', ''p2'', ''p3''], sense = [''+'', ''+'', ''-''], position = [(0, 10), (20, 30), (45, 50)]\<rparr>"
  by (simp add: flip_genomes_def flip_genome_def reflect_positions_def)

section \<open>Dereplication\<close>

text \<open>
  How \<^verbatim>\<open>str\<close> renders the encoded categories, and the signature of a genome with the
  strands \<^verbatim>\<open>+\<close>, \<^verbatim>\<open>-\<close> and the categories 1 and 12.
\<close>

lemma str_category_examples:
  "str_category None = ''None''"
  "str_category (Some 0) = ''0''"
  "str_category (Some 7) = ''7''"
  "str_category (Some 205) = ''205''"
  "str_category (Some (- 17)) = ''-17''"
  by code_simp+

lemma training_hash_example:
  "training_hash Some \<lparr>genome_length = 100, phrogs = [1, 12 :: int], protein_id = [''p1'', ''p2''], sense = [''+'', ''-''], position = []\<rparr> = ''+-112''"
  by code_simp

text \<open>
  Claim C4. The signature of a genome is its strand string followed by its encoded
  category string: the strands joined, then the categories rendered by \<^verbatim>\<open>str\<close> and
  joined. On a dictionary (distinct keys) the output of \<^verbatim>\<open>derep_trainingdata\<close> has
  pairwise different signatures, holds exactly the signatures of the input, and every
  genome it keeps is a genome of the input that no later genome of the input shares its
  signature with: of the genomes with one signature the last one is kept.
\<close>

theorem derep_trainingdata_signatures:
  fixes training_data :: "('k \<times> 'l genome) list"
  assumes "distinct (map fst training_data)"
  shows "distinct (map (\<lambda>x. concat (sense (snd x)) @ concat (map str_category (map phrog_encoding (phrogs (snd x)))))
                     (derep_trainingdata phrog_encoding training_data)) \<and>
         set (map (\<lambda>x. concat (sense (snd x)) @ concat (map str_category (map phrog_encoding (phrogs (snd x)))))
                  (derep_trainingdata phrog_encoding training_data)) =
           set (map (\<lambda>x. concat (sense (snd x)) @ concat (map str_category (map phrog_encoding (phrogs (snd x))))) training_data) \<and>
         (\<forall>x\<in>set (derep_trainingdata phrog_encoding training_data).
            \<exists>before after.
              training_data = before @ x # after \<and>
              (\<forall>x'\<in>set after.
                 (\<lambda>x. concat (sense (snd x)) @ concat (map str_category (map phrog_encoding (phrogs (snd x))))) x' \<noteq>
                 (\<lambda>x. concat (sense (snd x)) @ concat (map str_category (map phrog_encoding (phrogs (snd x))))) x))"
proof -
  define h where "h = (\<lambda>x :: 'k \<times> 'l genome. concat (sense (snd x)) @ concat (map str_category (map phrog_encoding (phrogs (snd x)))))"
  let ?H = "py_dict (zip (map h training_data) training_data)"
  let ?Z = "map (\<lambda>x. (h x, x)) training_data"
  have hcase: "(\<lambda>(key, genome). training_hash phrog_encoding genome) = h"
    by (auto simp: h_def training_hash_def)
  have dH: "distinct (map fst ?H)" by (rule py_dict_distinct)
  have mH: "map_of ?H = map_of (rev ?Z)"
    by (simp only: py_dict_map_of zip_map_self)
  have ent: "h x = a \<and> map_of (rev ?Z) a = Some x" if "(a, x) \<in> set ?H" for a x
  proof -
    from that dH have "map_of ?H a = Some x" by simp
    then have m: "map_of (rev ?Z) a = Some x" by (simp only: mH)
    from map_of_SomeD[OF m] have "h x = a" by auto
    with m show ?thesis by simp
  qed
  have last_one: "\<exists>before after. training_data = before @ x # after \<and>
      (\<forall>x'\<in>set after. h x' \<noteq> h x)" if "x \<in> set (map snd ?H)" for x
  proof -
    from that obtain a where "(a, x) \<in> set ?H" by auto
    from ent[OF this] have a: "h x = a" and m: "map_of (rev ?Z) a = Some x" by simp_all
    from map_of_rev_last[OF m] a show ?thesis by blast
  qed
  have sub: "set (map snd ?H) \<subseteq> set training_data"
  proof
    fix x assume "x \<in> set (map snd ?H)"
    from last_one[OF this] show "x \<in> set training_data" by auto
  qed
  have "h (snd p) = fst p" if "p \<in> set ?H" for p
    using ent[of "fst p" "snd p"] that by simp
  then have fstH: "map h (map snd ?H) = map fst ?H" by simp
  have dh: "distinct (map h (map snd ?H))" using dH by (simp only: fstH)
  have ditems: "distinct (map snd ?H)"
    using dh unfolding distinct_map[of h "map snd ?H"] by (rule conjunct1)
  have inj: "inj_on fst (set training_data)" using assms by (simp add: distinct_map)
  have dkeys: "distinct (map fst (map snd ?H))"
    unfolding distinct_map[of fst "map snd ?H"]
    by (intro conjI ditems inj_on_subset[OF inj sub])
  have out: "derep_trainingdata phrog_encoding training_data = map snd ?H"
    unfolding derep_trainingdata_def Let_def hcase by (rule py_dict_distinct_id[OF dkeys])
  have "fst ` set ?H = dom (map_of ?H)" by (simp only: dom_map_of_conv_image_fst)
  also have "\<dots> = dom (map_of (rev ?Z))" by (simp only: mH)
  also have "\<dots> = h ` set training_data"
    by (simp add: dom_map_of_conv_image_fst image_image)
  finally have "set (map fst ?H) = set (map h training_data)" by simp
  then have c2: "set (map h (map snd ?H)) = set (map h training_data)" by (simp only: fstH)
  have c3: "\<forall>x\<in>set (map snd ?H). \<exists>before after. training_data = before @ x # after \<and>
      (\<forall>x'\<in>set after. h x' \<noteq> h x)"
    using last_one by blast
  from dh c2 c3 show ?thesis unfolding out h_def by (intro conjI)
qed

text \<open>
  Four genomes: \<open>a\<close> and \<open>c\<close> share the signature \<^verbatim>\<open>+-112\<close>, \<open>b\<close> differs from them in a
  strand and \<open>d\<close> in a category. The output keeps \<open>c\<close>, the later one of \<open>a\<close> and \<open>c\<close>,
  in the place of \<open>a\<close>, followed by \<open>b\<close> and \<open>d\<close>.
\<close>

theorem derep_trainingdata_signatures_witness:
  "derep_trainingdata Some
     [(''a'', \<lparr>genome_length = 100, phrogs = [1, 12 :: int], protein_id = [''p1'', ''p2''], sense = [''+'', ''-''], position = []\<rparr>),
      (''b'', \<lparr>genome_length = 100, phrogs = [1, 12], protein_id = [''q1'', ''q2''], sense = [''+'', ''+''], position = []\<rparr>),
      (''c'', \<lparr>genome_length = 100, phrogs = [1, 12], protein_id = [''r1'', ''r2''], sense = [''+'', ''-''], position = []\<rparr>),
      (''d'', \<lparr>genome_length = 100, phrogs = [1, 13], protein_id = [''s1'', ''s2''], sense = [''+'', ''-''], position = []\<rparr>)] =
     [(''c'', \<lparr>genome_length = 100, phrogs = [1, 12 :: int], protein_id = [''r1'', ''r2''], sense = [''+'', ''-''], position = []\<rparr>),
      (''b'', \<lparr>genome_length = 100, phrogs = [1, 12], protein_id = [''q1'', ''q2''], sense = [''+'', ''+''], position = []\<rparr>),
      (''d'', \<lparr>genome_length = 100, phrogs = [1, 13], protein_id = [''s1'', ''s2''], sense = [''+'', ''-''], position = []\<rparr>)] \<and>
   map (\<lambda>x. concat (sense (snd x)) @ concat (map str_category (map Some (phrogs (snd x)))))
     [(''a'', \<lparr>genome_length = 100, phrogs = [1, 12 :: int], protein_id = [''p1'', ''p2''], sense = [''+'', ''-''], position = []\<rparr>),
      (''b'', \<lparr>genome_length = 100, phrogs = [1, 12], protein_id = [''q1'', ''q2''], sense = [''+'', ''+''], position = []\<rparr>),
      (''c'', \<lparr>genome_length = 100, phrogs = [1, 12], protein_id = [''r1'', ''r2''], sense = [''+'', ''-''], position = []\<rparr>),
      (''d'', \<lparr>genome_length = 100, phrogs = [1, 13], protein_id = [''s1'', ''s2''], sense = [''+'', ''-''], position = []\<rparr>)] =
     [''+-112'', ''++112'', ''+-112'', ''+-113''] \<and>
   distinct (map (\<lambda>x. concat (sense (snd x)) @ concat (map str_category (map Some (phrogs (snd x)))))
      (derep_trainingdata Some
     [(''a'', \<lparr>genome_length = 100, phrogs = [1, 12 :: int], protein_id = [''p1'', ''p2''], sense = [''+'', ''-''], position = []\<rparr>),
      (''b'', \<lparr>genome_length = 100, phrogs = [1, 12], protein_id = [''q1'', ''q2''], sense = [''+'', ''+''], position = []\<rparr>),
      (''c'', \<lparr>genome_length = 100, phrogs = [1, 12], protein_id = [''r1'', ''r2''], sense = [''+'', ''-''], position = []\<rparr>),
      (''d'', \<lparr>genome_length = 100, phrogs = [1, 13], protein_id = [''s1'', ''s2''], sense = [''+'', ''-''], position = []\<rparr>)]))"
proof -
  have h: "distinct (map fst
     [(''a'', \<lparr>genome_length = 100, phrogs = [1, 12 :: int], protein_id = [''p1'', ''p2''], sense = [''+'', ''-''], position = []\<rparr>),
      (''b'', \<lparr>genome_length = 100, phrogs = [1, 12], protein_id = [''q1'', ''q2''], sense = [''+'', ''+''], position = []\<rparr>),
      (''c'', \<lparr>genome_length = 100, phrogs = [1, 12], protein_id = [''r1'', ''r2''], sense = [''+'', ''-''], position = []\<rparr>),
      (''d'', \<lparr>genome_length = 100, phrogs = [1, 13], protein_id = [''s1'', ''s2''], sense = [''+'', ''-''], position = []\<rparr>)])"
    by simp
  have e1: "derep_trainingdata Some
     [(''a'', \<lparr>genome_length = 100, phrogs = [1, 12 :: int], protein_id = [''p1'', ''p2''], sense = [''+'', ''-''], position = []\<rparr>),
      (''b'', \<lparr>genome_length = 100, phrogs = [1, 12], protein_id = [''q1'', ''q2''], sense = [''+'', ''+''], position = []\<rparr>),
      (''c'', \<lparr>genome_length = 100, phrogs = [1, 12], protein_id = [''r1'', ''r2''], sense = [''+'', ''-''], position = []\<rparr>),
      (''d'', \<lparr>genome_length = 100, phrogs = [1, 13], protein_id = [''s1'', ''s2''], sense = [''+'', ''-''], position = []\<rparr>)] =
     [(''c'', \<lparr>genome_length = 100, phrogs = [1, 12 :: int], protein_id = [''r1'', ''r2''], sense = [''+'', ''-''], position = []\<rparr>),
      (''b'', \<lparr>genome_length = 100, phrogs = [1, 12], protein_id = [''q1'', ''q2''], sense = [''+'', ''+''], position = []\<rparr>),
      (''d'', \<lparr>genome_length = 100, phrogs = [1, 13], protein_id = [''s1'', ''s2''], sense = [''+'', ''-''], position = []\<rparr>)]"
    by code_simp
  have e2: "map (\<lambda>x. concat (sense (snd x)) @ concat (map str_category (map Some (phrogs (snd x)))))
     [(''a'', \<lparr>genome_length = 100, phrogs = [1, 12 :: int], protein_id = [''p1'', ''p2''], sense = [''+'', ''-''], position = []\<rparr>),
      (''b'', \<lparr>genome_length = 100, phrogs = [1, 12], protein_id = [''q1'', ''q2''], sense = [''+'', ''+''], position = []\<rparr>),
      (''c'', \<lparr>genome_length = 100, phrogs = [1, 12], protein_id = [''r1'', ''r2''], sense = [''+'', ''-''], position = []\<rparr>),
      (''d'', \<lparr>genome_length = 100, phrogs = [1, 13], protein_id = [''s1'', ''s2''], sense = [''+'', ''-''], position = []\<rparr>)] =
     [''+-112'', ''++112'', ''+-112'', ''+-113'']"
    by code_simp
  note T = derep_trainingdata_signatures[OF h, of Some]
  from e1 e2 T[THEN conjunct1] show ?thesis by (intro conjI)
qed

section \<open>Properties of the features\<close>

lemma np_max_Inr:
  assumes "np_max xs = Inr m"
  shows "xs \<noteq> [] \<and> m = Max (set xs)"
proof (cases xs)
  case Nil
  with assms show ?thesis by simp
next
  case (Cons x xs')
  with assms have "m = fold max xs' x" by simp
  also have "\<dots> = Max (set (x # xs'))" by (simp only: Max.set_eq_fold)
  finally show ?thesis using Cons by simp
qed

lemma np_max_each_Inr:
  "np_max_each ls = Inr ms \<Longrightarrow> [] \<notin> set ls \<and> ms = map (\<lambda>l. Max (set l)) ls"
proof (induction ls arbitrary: ms)
  case Nil
  then show ?case by simp
next
  case (Cons l ls)
  from Cons.prems obtain m ms' where m: "np_max l = Inr m"
    and r: "np_max_each ls = Inr ms'" and ms: "ms = m # ms'"
    by (auto split: sum.splits)
  from np_max_Inr[OF m] Cons.IH[OF r] ms show ?case by auto
qed


lemma scale_starts_Inr:
  "scale_starts ss = Inr out \<Longrightarrow> out = map (\<lambda>s. map (\<lambda>v. np_div v (Max (set s))) s) ss"
proof (induction ss arbitrary: out)
  case Nil
  then show ?case by simp
next
  case (Cons s ss)
  from Cons.prems obtain m rest where m: "np_max s = Inr m"
    and r: "scale_starts ss = Inr rest" and out: "out = map (\<lambda>v. np_div v m) s # rest"
    by (auto split: sum.splits)
  from np_max_Inr[OF m] Cons.IH[OF r] out show ?case by simp
qed






lemma intergenic_encoding_length:
  "position genome \<noteq> [] \<Longrightarrow> length (intergenic_encoding genome) = length (position genome)"
  by (cases "position genome") (simp_all add: intergenic_encoding_def)


lemma format_data_Inr:
  assumes fd: "format_data phrog_encoding training_data = Inr (encodings, features)"
  shows "training_data \<noteq> [] \<and> (\<forall>x\<in>set training_data. position (snd x) \<noteq> []) \<and>
     encodings = map (\<lambda>x. map phrog_encoding (phrogs (snd x))) training_data \<and>
     features = map (\<lambda>x. [as_float64 (fst (encode_strand (sense_encoding (snd x)))),
                 as_float64 (snd (encode_strand (sense_encoding (snd x)))),
                 map (\<lambda>v. np_div v (Max (set (map (\<lambda>l. Max (set l)) (map (\<lambda>x. length_encoding (snd x)) training_data))))) (length_encoding (snd x)),
                 map (\<lambda>v. np_div v (Max (set (start_encoding (snd x))))) (start_encoding (snd x)),
                 map (\<lambda>v. np_div v (Max (set (map (\<lambda>l. Max (set l)) (map (map abs) (map (\<lambda>x. intergenic_encoding (snd x)) training_data)))))) (intergenic_encoding (snd x))]) training_data"
proof -
  from fd obtain lm ml im mi starts where
    a: "np_max_each (map (\<lambda>x. length_encoding (snd x)) training_data) = Inr lm" and b: "np_max lm = Inr ml"
    and c: "np_max_each (map (map abs) (map (\<lambda>x. intergenic_encoding (snd x)) training_data)) = Inr im" and d: "np_max im = Inr mi"
    and e: "scale_starts (map (\<lambda>x. start_encoding (snd x)) training_data) = Inr starts"
    and en: "encodings = map (\<lambda>x. map phrog_encoding (phrogs (snd x))) training_data"
    and f: "features = map (\<lambda>j.
              [as_float64 (fst (encode_strand (map (\<lambda>x. sense_encoding (snd x)) training_data ! j))),
               as_float64 (snd (encode_strand (map (\<lambda>x. sense_encoding (snd x)) training_data ! j))),
               map (\<lambda>v. np_div v ml) ((map (\<lambda>x. length_encoding (snd x)) training_data) ! j),
               starts ! j,
               map (\<lambda>v. np_div v mi) ((map (\<lambda>x. intergenic_encoding (snd x)) training_data) ! j)])
            [0..<length training_data]"
    unfolding format_data_def Let_def by (auto split: sum.splits)
  from np_max_each_Inr[OF a] have ne: "[] \<notin> set (map (\<lambda>x. length_encoding (snd x)) training_data)"
    and lm: "lm = map (\<lambda>l. Max (set l)) (map (\<lambda>x. length_encoding (snd x)) training_data)" by blast+
  from np_max_Inr[OF b] have lmne: "lm \<noteq> []" and ml: "ml = Max (set lm)" by blast+
  from np_max_each_Inr[OF c] have im: "im = map (\<lambda>l. Max (set l)) (map (map abs) (map (\<lambda>x. intergenic_encoding (snd x)) training_data))"
    by blast
  from np_max_Inr[OF d] have mi: "mi = Max (set im)" by blast
  from scale_starts_Inr[OF e] have st:
    "starts = map (\<lambda>s. map (\<lambda>v. np_div v (Max (set s))) s) (map (\<lambda>x. start_encoding (snd x)) training_data)" .
  have ml': "ml = Max (set (map (\<lambda>l. Max (set l)) (map (\<lambda>x. length_encoding (snd x)) training_data)))" by (simp only: ml lm)
  have mi': "mi = Max (set (map (\<lambda>l. Max (set l)) (map (map abs) (map (\<lambda>x. intergenic_encoding (snd x)) training_data))))" by (simp only: mi im)
  have tdne: "training_data \<noteq> []" using lmne lm by auto
  have genes: "\<forall>x\<in>set training_data. position (snd x) \<noteq> []"
  proof
    fix x assume "x \<in> set training_data"
    then have "length_encoding (snd x) \<in> set (map (\<lambda>x. length_encoding (snd x)) training_data)" by simp
    with ne have "length_encoding (snd x) \<noteq> []" by metis
    then show "position (snd x) \<noteq> []" by (auto simp: length_encoding_def)
  qed
  have feats: "features = map (\<lambda>x. [as_float64 (fst (encode_strand (sense_encoding (snd x)))),
                 as_float64 (snd (encode_strand (sense_encoding (snd x)))),
                 map (\<lambda>v. np_div v (Max (set (map (\<lambda>l. Max (set l)) (map (\<lambda>x. length_encoding (snd x)) training_data))))) (length_encoding (snd x)),
                 map (\<lambda>v. np_div v (Max (set (start_encoding (snd x))))) (start_encoding (snd x)),
                 map (\<lambda>v. np_div v (Max (set (map (\<lambda>l. Max (set l)) (map (map abs) (map (\<lambda>x. intergenic_encoding (snd x)) training_data)))))) (intergenic_encoding (snd x))]) training_data"
    unfolding f ml' mi'
  proof (rule nth_equalityI)
    show "length (map (\<lambda>j.
              [as_float64 (fst (encode_strand (map (\<lambda>x. sense_encoding (snd x)) training_data ! j))),
               as_float64 (snd (encode_strand (map (\<lambda>x. sense_encoding (snd x)) training_data ! j))),
               map (\<lambda>v. np_div v (Max (set (map (\<lambda>l. Max (set l)) (map (\<lambda>x. length_encoding (snd x)) training_data))))) ((map (\<lambda>x. length_encoding (snd x)) training_data) ! j),
               starts ! j,
               map (\<lambda>v. np_div v (Max (set (map (\<lambda>l. Max (set l)) (map (map abs) (map (\<lambda>x. intergenic_encoding (snd x)) training_data)))))) ((map (\<lambda>x. intergenic_encoding (snd x)) training_data) ! j)])
            [0..<length training_data]) = length (map (\<lambda>x. [as_float64 (fst (encode_strand (sense_encoding (snd x)))),
                 as_float64 (snd (encode_strand (sense_encoding (snd x)))),
                 map (\<lambda>v. np_div v (Max (set (map (\<lambda>l. Max (set l)) (map (\<lambda>x. length_encoding (snd x)) training_data))))) (length_encoding (snd x)),
                 map (\<lambda>v. np_div v (Max (set (start_encoding (snd x))))) (start_encoding (snd x)),
                 map (\<lambda>v. np_div v (Max (set (map (\<lambda>l. Max (set l)) (map (map abs) (map (\<lambda>x. intergenic_encoding (snd x)) training_data)))))) (intergenic_encoding (snd x))]) training_data)"
      by simp
  next
    fix i assume "i < length (map (\<lambda>j.
              [as_float64 (fst (encode_strand (map (\<lambda>x. sense_encoding (snd x)) training_data ! j))),
               as_float64 (snd (encode_strand (map (\<lambda>x. sense_encoding (snd x)) training_data ! j))),
               map (\<lambda>v. np_div v (Max (set (map (\<lambda>l. Max (set l)) (map (\<lambda>x. length_encoding (snd x)) training_data))))) ((map (\<lambda>x. length_encoding (snd x)) training_data) ! j),
               starts ! j,
               map (\<lambda>v. np_div v (Max (set (map (\<lambda>l. Max (set l)) (map (map abs) (map (\<lambda>x. intergenic_encoding (snd x)) training_data)))))) ((map (\<lambda>x. intergenic_encoding (snd x)) training_data) ! j)])
            [0..<length training_data])"
    then have i: "i < length training_data" by simp
    show "map (\<lambda>j.
              [as_float64 (fst (encode_strand (map (\<lambda>x. sense_encoding (snd x)) training_data ! j))),
               as_float64 (snd (encode_strand (map (\<lambda>x. sense_encoding (snd x)) training_data ! j))),
               map (\<lambda>v. np_div v (Max (set (map (\<lambda>l. Max (set l)) (map (\<lambda>x. length_encoding (snd x)) training_data))))) ((map (\<lambda>x. length_encoding (snd x)) training_data) ! j),
               starts ! j,
               map (\<lambda>v. np_div v (Max (set (map (\<lambda>l. Max (set l)) (map (map abs) (map (\<lambda>x. intergenic_encoding (snd x)) training_data)))))) ((map (\<lambda>x. intergenic_encoding (snd x)) training_data) ! j)])
            [0..<length training_data] ! i = map (\<lambda>x. [as_float64 (fst (encode_strand (sense_encoding (snd x)))),
                 as_float64 (snd (encode_strand (sense_encoding (snd x)))),
                 map (\<lambda>v. np_div v (Max (set (map (\<lambda>l. Max (set l)) (map (\<lambda>x. length_encoding (snd x)) training_data))))) (length_encoding (snd x)),
                 map (\<lambda>v. np_div v (Max (set (start_encoding (snd x))))) (start_encoding (snd x)),
                 map (\<lambda>v. np_div v (Max (set (map (\<lambda>l. Max (set l)) (map (map abs) (map (\<lambda>x. intergenic_encoding (snd x)) training_data)))))) (intergenic_encoding (snd x))]) training_data ! i"
      using i by (simp add: st)
  qed
  from tdne genes en feats show ?thesis by (intro conjI)
qed

lemma py_index_less: "py_index n i = Some j \<Longrightarrow> j < n"
  by (auto simp: py_index_def split: if_splits)

lemma generate_example_feature_column:
  assumes ex: "generate_example sequence features nf n ml idx = Inr (X, y)"
    and f: "f < length features" and i: "i < length (features ! f)"
  shows "X ! 0 ! i ! (nf + f) = features ! f ! i"
proof -
  from ex obtain y2 X0 X1 X2 where
    X0: "one_hot_encode (pad_sequences_post ml sequence) n = Inr X0" and
    X1: "encode_features (astype_float64 X0) features nf = Inr X1" and
    X2: "mask_row X1 idx nf = Inr X2" and res: "X = [X2]"
    by (auto simp: generate_example_def Let_def split: sum.splits)
  have rows: "\<forall>r<length (astype_float64 X0). length (astype_float64 X0 ! r) = n"
  proof (intro allI impI)
    fix r assume "r < length (astype_float64 X0)"
    then have r: "r < length X0" by (simp add: astype_float64_def)
    then have "r < length (pad_sequences_post ml sequence)"
      using one_hot_encode_length[OF X0] by simp
    from one_hot_encode_nth[OF X0 this] obtain j where "X0 ! r = (replicate n 0)[j := 1]"
      by auto
    then show "length (astype_float64 X0 ! r) = n" using r by (simp add: astype_float64_def)
  qed
  from encode_features_column[OF X1 f i rows] have iA: "i < length (astype_float64 X0)"
    and v: "X1 ! i ! (nf + f) = features ! f ! i" by blast+
  from X2 obtain r where pr: "py_index (length X1) idx = Some r"
    and nfr: "nf \<le> length (X1 ! r)"
    and X2eq: "X2 = X1[r := replicate nf (Fin 0) @ drop nf (X1 ! r)]"
    by (auto simp: mask_row_def split: option.splits if_splits)
  have r: "r < length X1" using pr by (rule py_index_less)
  show ?thesis
  proof (cases "i = r")
    case True
    have "X2 ! i = replicate nf (Fin 0) @ drop nf (X1 ! i)" using True r by (simp add: X2eq)
    then have "X2 ! i ! (nf + f) = drop nf (X1 ! i) ! f" by (simp add: nth_append)
    also have "\<dots> = X1 ! i ! (nf + f)" using True nfr by simp
    finally show ?thesis by (simp add: res v)
  next
    case False
    then have "X2 ! i = X1 ! i" by (simp add: X2eq)
    then show ?thesis by (simp add: res v)
  qed
qed

section \<open>The feature columns of an example\<close>

lemma format_data_eval_strands:
  "format_data Some
     [(''a'', \<lparr>genome_length = 30, phrogs = [1, 2 :: int], protein_id = [''p1'', ''p2''],
               sense = [''+'', ''-''], position = [(0, 10), (20, 30)]\<rparr>)] =
   Inr ([[Some 1, Some 2]],
        [[[Fin 0, Fin 1], [Fin 1, Fin 0], [Fin 1, Fin 1], [Fin (1 / 21), Fin 1], [Fin 0, Fin 1]]])"
  by code_simp

lemma generate_example_eval_strands:
  "generate_example [1, 2]
     ([[[Fin 0, Fin 1], [Fin 1, Fin 0], [Fin 1, Fin 1], [Fin (1 / 21), Fin 1], [Fin 0, Fin 1]]] ! 0)
     3 8 3 1 =
   Inr ([[[Fin 0, Fin 1, Fin 0, Fin 0, Fin 1, Fin 1, Fin (1 / 21), Fin 0],
          [Fin 0, Fin 0, Fin 0, Fin 1, Fin 0, Fin 1, Fin 1, Fin 1],
          [Fin 1, Fin 0, Fin 0, Fin 0, Fin 0, Fin 0, Fin 0, Fin 0]]],
        [[[0, 1, 0], [0, 0, 1], [1, 0, 0]]])"
  by code_simp

text \<open>
  Claim C7, as amended. For a genome \<open>j\<close> of a dataset processed by \<^verbatim>\<open>format_data\<close>
  (with as many strands as positions) and an example built from its features by
  \<^verbatim>\<open>generate_example\<close>, the columns after the category block hold, for every gene \<open>i\<close>
  of the genome: at column \<^verbatim>\<open>num_functions\<close> the reverse indicator, 1 exactly when the
  strand is not \<^verbatim>\<open>+\<close>; at column \<^verbatim>\<open>num_functions + 1\<close> the forward indicator, 1 exactly
  when the strand is \<^verbatim>\<open>+\<close>; then the gene length divided by the largest gene length of
  the dataset, the start offset divided by the largest start offset of the genome, and
  the intergenic distance divided by the largest absolute intergenic distance of the
  dataset.
\<close>

theorem format_data_feature_columns:
  fixes training_data :: "('k \<times> 'l genome) list" and j :: nat
  defines "g \<equiv> snd (training_data ! j)"
  assumes fd: "format_data phrog_encoding training_data = Inr (encodings, features)"
    and j: "j < length training_data"
    and ex: "generate_example sequence (features ! j) num_functions n_features max_length idx =
               Inr (X, y)"
    and len: "length (sense g) = length (position g)"
    and i: "i < length (position g)"
  shows "X ! 0 ! i ! num_functions = Fin (if sense g ! i = ''+'' then 0 else 1) \<and>
         X ! 0 ! i ! (num_functions + 1) = Fin (if sense g ! i = ''+'' then 1 else 0) \<and>
         X ! 0 ! i ! (num_functions + 2) =
           np_div (snd (position g ! i) - fst (position g ! i))
             (Max (set (map (\<lambda>l. Max (set l)) (map (\<lambda>x. length_encoding (snd x)) training_data)))) \<and>
         X ! 0 ! i ! (num_functions + 3) =
           np_div (fst (position g ! i) - fst (position g ! 0) + 1)
             (Max (set (start_encoding g))) \<and>
         X ! 0 ! i ! (num_functions + 4) =
           np_div (if i = 0 then 0 else fst (position g ! i) - snd (position g ! (i - 1)))
             (Max (set (map (\<lambda>l. Max (set l)) (map (map abs) (map (\<lambda>x. intergenic_encoding (snd x)) training_data)))))"
proof -
  have feats: "features = map (\<lambda>x. [as_float64 (fst (encode_strand (sense_encoding (snd x)))),
                 as_float64 (snd (encode_strand (sense_encoding (snd x)))),
                 map (\<lambda>v. np_div v (Max (set (map (\<lambda>l. Max (set l)) (map (\<lambda>x. length_encoding (snd x)) training_data))))) (length_encoding (snd x)),
                 map (\<lambda>v. np_div v (Max (set (start_encoding (snd x))))) (start_encoding (snd x)),
                 map (\<lambda>v. np_div v (Max (set (map (\<lambda>l. Max (set l)) (map (map abs) (map (\<lambda>x. intergenic_encoding (snd x)) training_data)))))) (intergenic_encoding (snd x))]) training_data"
    by (rule format_data_Inr[OF fd, THEN conjunct2, THEN conjunct2, THEN conjunct2])
  have fj: "features ! j = (\<lambda>x. [as_float64 (fst (encode_strand (sense_encoding (snd x)))),
                 as_float64 (snd (encode_strand (sense_encoding (snd x)))),
                 map (\<lambda>v. np_div v (Max (set (map (\<lambda>l. Max (set l)) (map (\<lambda>x. length_encoding (snd x)) training_data))))) (length_encoding (snd x)),
                 map (\<lambda>v. np_div v (Max (set (start_encoding (snd x))))) (start_encoding (snd x)),
                 map (\<lambda>v. np_div v (Max (set (map (\<lambda>l. Max (set l)) (map (map abs) (map (\<lambda>x. intergenic_encoding (snd x)) training_data)))))) (intergenic_encoding (snd x))]) (training_data ! j)"
    using j by (simp add: feats)
  have isn: "i < length (sense g)" using i len by simp
  have ig: "intergenic_encoding g ! i =
      (if i = 0 then 0 else fst (position g ! i) - snd (position g ! (i - 1)))"
  proof (cases i)
    case 0
    then show ?thesis by (simp add: intergenic_encoding_def)
  next
    case (Suc k)
    with i have k: "k < length (position g) - 1" by simp
    with Suc show ?thesis by (simp add: intergenic_encoding_def)
  qed
  have lg: "length (intergenic_encoding g) = length (position g)"
    using i by (intro intergenic_encoding_length) auto
  have l0: "i < length (features ! j ! 0)"
    using isn by (simp add: fj as_float64_def encode_strand_def sense_encoding_def g_def)
  have l1: "i < length (features ! j ! 1)"
    using isn by (simp add: fj as_float64_def encode_strand_def sense_encoding_def g_def)
  have l2: "i < length (features ! j ! 2)"
    using i by (simp add: fj length_encoding_def g_def)
  have l3: "i < length (features ! j ! 3)"
    using i by (simp add: fj start_encoding_def g_def)
  have l4: "i < length (features ! j ! 4)"
    using i lg by (simp add: fj g_def)
  have n5: "0 < length (features ! j)" "1 < length (features ! j)" "2 < length (features ! j)"
    "3 < length (features ! j)" "4 < length (features ! j)"
    by (simp_all add: fj)
  have v0: "features ! j ! 0 ! i = Fin (if sense g ! i = ''+'' then 0 else 1)"
    using isn by (simp add: fj as_float64_def encode_strand_def sense_encoding_def g_def)
  have v1: "features ! j ! 1 ! i = Fin (if sense g ! i = ''+'' then 1 else 0)"
    using isn by (simp add: fj as_float64_def encode_strand_def sense_encoding_def g_def)
  have v2: "features ! j ! 2 ! i = np_div (snd (position g ! i) - fst (position g ! i))
             (Max (set (map (\<lambda>l. Max (set l)) (map (\<lambda>x. length_encoding (snd x)) training_data))))"
    using i by (simp add: fj length_encoding_def g_def)
  have v3: "features ! j ! 3 ! i = np_div (fst (position g ! i) - fst (position g ! 0) + 1)
             (Max (set (start_encoding g)))"
    using i by (simp add: fj g_def) (simp add: start_encoding_def)
  have v4: "features ! j ! 4 ! i =
           np_div (if i = 0 then 0 else fst (position g ! i) - snd (position g ! (i - 1)))
             (Max (set (map (\<lambda>l. Max (set l)) (map (map abs) (map (\<lambda>x. intergenic_encoding (snd x)) training_data)))))"
    using i lg ig by (simp add: fj g_def)
  have c0': "X ! 0 ! i ! (num_functions + 0) = features ! j ! 0 ! i"
    by (rule generate_example_feature_column[OF ex n5(1) l0])
  have c0: "X ! 0 ! i ! num_functions = Fin (if sense g ! i = ''+'' then 0 else 1)"
    using c0'[unfolded v0] by simp
  have c1: "X ! 0 ! i ! (num_functions + 1) = features ! j ! 1 ! i"
    by (rule generate_example_feature_column[OF ex n5(2) l1])
  have c2: "X ! 0 ! i ! (num_functions + 2) = features ! j ! 2 ! i"
    by (rule generate_example_feature_column[OF ex n5(3) l2])
  have c3: "X ! 0 ! i ! (num_functions + 3) = features ! j ! 3 ! i"
    by (rule generate_example_feature_column[OF ex n5(4) l3])
  have c4: "X ! 0 ! i ! (num_functions + 4) = features ! j ! 4 ! i"
    by (rule generate_example_feature_column[OF ex n5(5) l4])
  from c0 c1[unfolded v1] c2[unfolded v2] c3[unfolded v3] c4[unfolded v4] show ?thesis by (intro conjI)
qed

text \<open>
  A dataset of one genome with a gene on the \<^verbatim>\<open>+\<close> strand followed by a gene on the
  \<^verbatim>\<open>-\<close> strand, three categories and eight columns: gene 0 has 0 in column 3 and 1 in
  column 4, gene 1 has 1 in column 3 and 0 in column 4.
\<close>

theorem format_data_feature_columns_witness:
  "format_data Some
     [(''a'', \<lparr>genome_length = 30, phrogs = [1, 2 :: int], protein_id = [''p1'', ''p2''],
               sense = [''+'', ''-''], position = [(0, 10), (20, 30)]\<rparr>)] =
   Inr ([[Some 1, Some 2]],
        [[[Fin 0, Fin 1], [Fin 1, Fin 0], [Fin 1, Fin 1], [Fin (1 / 21), Fin 1], [Fin 0, Fin 1]]]) \<and>
   generate_example [1, 2]
     ([[[Fin 0, Fin 1], [Fin 1, Fin 0], [Fin 1, Fin 1], [Fin (1 / 21), Fin 1], [Fin 0, Fin 1]]] ! 0)
     3 8 3 1 =
   Inr ([[[Fin 0, Fin 1, Fin 0, Fin 0, Fin 1, Fin 1, Fin (1 / 21), Fin 0],
          [Fin 0, Fin 0, Fin 0, Fin 1, Fin 0, Fin 1, Fin 1, Fin 1],
          [Fin 1, Fin 0, Fin 0, Fin 0, Fin 0, Fin 0, Fin 0, Fin 0]]],
        [[[0, 1, 0], [0, 0, 1], [1, 0, 0]]]) \<and>
   [[[Fin 0, Fin 1, Fin 0, Fin 0, Fin 1, Fin 1, Fin (1 / 21), Fin 0],
          [Fin 0, Fin 0, Fin 0, Fin 1, Fin 0, Fin 1, Fin 1, Fin 1],
          [Fin 1, Fin 0, Fin 0, Fin 0, Fin 0, Fin 0, Fin 0, Fin 0]]] ! 0 ! 0 ! 3 = Fin 0 \<and>
   [[[Fin 0, Fin 1, Fin 0, Fin 0, Fin 1, Fin 1, Fin (1 / 21), Fin 0],
          [Fin 0, Fin 0, Fin 0, Fin 1, Fin 0, Fin 1, Fin 1, Fin 1],
          [Fin 1, Fin 0, Fin 0, Fin 0, Fin 0, Fin 0, Fin 0, Fin 0]]] ! 0 ! 0 ! (3 + 1) = Fin 1 \<and>
   [[[Fin 0, Fin 1, Fin 0, Fin 0, Fin 1, Fin 1, Fin (1 / 21), Fin 0],
          [Fin 0, Fin 0, Fin 0, Fin 1, Fin 0, Fin 1, Fin 1, Fin 1],
          [Fin 1, Fin 0, Fin 0, Fin 0, Fin 0, Fin 0, Fin 0, Fin 0]]] ! 0 ! 1 ! 3 = Fin 1 \<and>
   [[[Fin 0, Fin 1, Fin 0, Fin 0, Fin 1, Fin 1, Fin (1 / 21), Fin 0],
          [Fin 0, Fin 0, Fin 0, Fin 1, Fin 0, Fin 1, Fin 1, Fin 1],
          [Fin 1, Fin 0, Fin 0, Fin 0, Fin 0, Fin 0, Fin 0, Fin 0]]] ! 0 ! 1 ! (3 + 1) = Fin 0"
proof -
  have j: "0 < length
     [(''a'', \<lparr>genome_length = 30, phrogs = [1, 2 :: int], protein_id = [''p1'', ''p2''],
               sense = [''+'', ''-''], position = [(0, 10), (20, 30)]\<rparr>)]"
    by simp
  have len: "length (sense (snd (
     [(''a'', \<lparr>genome_length = 30, phrogs = [1, 2 :: int], protein_id = [''p1'', ''p2''],
               sense = [''+'', ''-''], position = [(0, 10), (20, 30)]\<rparr>)] ! 0))) =
     length (position (snd (
     [(''a'', \<lparr>genome_length = 30, phrogs = [1, 2 :: int], protein_id = [''p1'', ''p2''],
               sense = [''+'', ''-''], position = [(0, 10), (20, 30)]\<rparr>)] ! 0)))"
    by simp
  have i0: "0 < length (position (snd (
     [(''a'', \<lparr>genome_length = 30, phrogs = [1, 2 :: int], protein_id = [''p1'', ''p2''],
               sense = [''+'', ''-''], position = [(0, 10), (20, 30)]\<rparr>)] ! 0)))"
    by simp
  have i1: "1 < length (position (snd (
     [(''a'', \<lparr>genome_length = 30, phrogs = [1, 2 :: int], protein_id = [''p1'', ''p2''],
               sense = [''+'', ''-''], position = [(0, 10), (20, 30)]\<rparr>)] ! 0)))"
    by simp
  note T0 = format_data_feature_columns[OF format_data_eval_strands j
      generate_example_eval_strands len i0]
  note T1 = format_data_feature_columns[OF format_data_eval_strands j
      generate_example_eval_strands len i1]
  have a: "[[[Fin 0, Fin 1, Fin 0, Fin 0, Fin 1, Fin 1, Fin (1 / 21), Fin 0],
          [Fin 0, Fin 0, Fin 0, Fin 1, Fin 0, Fin 1, Fin 1, Fin 1],
          [Fin 1, Fin 0, Fin 0, Fin 0, Fin 0, Fin 0, Fin 0, Fin 0]]] ! 0 ! 0 ! 3 = Fin 0"
    using T0[THEN conjunct1] by simp
  have b: "[[[Fin 0, Fin 1, Fin 0, Fin 0, Fin 1, Fin 1, Fin (1 / 21), Fin 0],
          [Fin 0, Fin 0, Fin 0, Fin 1, Fin 0, Fin 1, Fin 1, Fin 1],
          [Fin 1, Fin 0, Fin 0, Fin 0, Fin 0, Fin 0, Fin 0, Fin 0]]] ! 0 ! 0 ! (3 + 1) = Fin 1"
    using T0[THEN conjunct2, THEN conjunct1] by simp
  have c: "[[[Fin 0, Fin 1, Fin 0, Fin 0, Fin 1, Fin 1, Fin (1 / 21), Fin 0],
          [Fin 0, Fin 0, Fin 0, Fin 1, Fin 0, Fin 1, Fin 1, Fin 1],
          [Fin 1, Fin 0, Fin 0, Fin 0, Fin 0, Fin 0, Fin 0, Fin 0]]] ! 0 ! 1 ! 3 = Fin 1"
    using T1[THEN conjunct1] by simp
  have d: "[[[Fin 0, Fin 1, Fin 0, Fin 0, Fin 1, Fin 1, Fin (1 / 21), Fin 0],
          [Fin 0, Fin 0, Fin 0, Fin 1, Fin 0, Fin 1, Fin 1, Fin 1],
          [Fin 1, Fin 0, Fin 0, Fin 0, Fin 0, Fin 0, Fin 0, Fin 0]]] ! 0 ! 1 ! (3 + 1) = Fin 0"
    using T1[THEN conjunct2, THEN conjunct1] by simp
  from format_data_eval_strands generate_example_eval_strands a b c d
  show ?thesis by (intro conjI)
qed

text \<open>
  The claim as stated puts the forward indicator at column \<^verbatim>\<open>num_functions\<close>. In the
  example above gene 0 is on the \<^verbatim>\<open>+\<close> strand and column 3 of its row holds 0.
\<close>

theorem format_data_forward_column_counterexample:
  "format_data Some
     [(''a'', \<lparr>genome_length = 30, phrogs = [1, 2 :: int], protein_id = [''p1'', ''p2''],
               sense = [''+'', ''-''], position = [(0, 10), (20, 30)]\<rparr>)] =
   Inr ([[Some 1, Some 2]],
        [[[Fin 0, Fin 1], [Fin 1, Fin 0], [Fin 1, Fin 1], [Fin (1 / 21), Fin 1], [Fin 0, Fin 1]]]) \<and>
   generate_example [1, 2]
     ([[[Fin 0, Fin 1], [Fin 1, Fin 0], [Fin 1, Fin 1], [Fin (1 / 21), Fin 1], [Fin 0, Fin 1]]] ! 0)
     3 8 3 1 =
   Inr ([[[Fin 0, Fin 1, Fin 0, Fin 0, Fin 1, Fin 1, Fin (1 / 21), Fin 0],
          [Fin 0, Fin 0, Fin 0, Fin 1, Fin 0, Fin 1, Fin 1, Fin 1],
          [Fin 1, Fin 0, Fin 0, Fin 0, Fin 0, Fin 0, Fin 0, Fin 0]]],
        [[[0, 1, 0], [0, 0, 1], [1, 0, 0]]]) \<and>
   sense (snd (
     [(''a'', \<lparr>genome_length = 30, phrogs = [1, 2 :: int], protein_id = [''p1'', ''p2''],
               sense = [''+'', ''-''], position = [(0, 10), (20, 30)]\<rparr>)] ! 0)) ! 0 = ''+'' \<and>
   [[[Fin 0, Fin 1, Fin 0, Fin 0, Fin 1, Fin 1, Fin (1 / 21), Fin 0],
          [Fin 0, Fin 0, Fin 0, Fin 1, Fin 0, Fin 1, Fin 1, Fin 1],
          [Fin 1, Fin 0, Fin 0, Fin 0, Fin 0, Fin 0, Fin 0, Fin 0]]] ! 0 ! 0 ! 3 = Fin 0"
proof -
  have s: "sense (snd (
     [(''a'', \<lparr>genome_length = 30, phrogs = [1, 2 :: int], protein_id = [''p1'', ''p2''],
               sense = [''+'', ''-''], position = [(0, 10), (20, 30)]\<rparr>)] ! 0)) ! 0 = ''+''"
    by simp
  have x: "[[[Fin 0, Fin 1, Fin 0, Fin 0, Fin 1, Fin 1, Fin (1 / 21), Fin 0],
          [Fin 0, Fin 0, Fin 0, Fin 1, Fin 0, Fin 1, Fin 1, Fin 1],
          [Fin 1, Fin 0, Fin 0, Fin 0, Fin 0, Fin 0, Fin 0, Fin 0]]] ! 0 ! 0 ! 3 = Fin 0"
    by simp
  from format_data_eval_strands generate_example_eval_strands s x
  show ?thesis by (intro conjI)
qed

section \<open>Bounds of the normalised features\<close>






section \<open>A zero divisor in the normalisation\<close>





section \<open>The resampling loop\<close>

lemma resample_never:
  assumes "resample sequence rand k idx = Some res"
  shows "sequence = [1, 0, 0] \<longrightarrow> (idx = 1 \<or> idx = 2) \<longrightarrow> False"
proof (rule resample.raw_induct[where P = "\<lambda>sequence rand k idx res.
    sequence = [1, 0, 0] \<longrightarrow> (idx = 1 \<or> idx = 2) \<longrightarrow> False", OF _ assms], goal_cases)
  case (1 resample' sequence rand k idx res)
  show ?case
  proof (intro impI)
    assume s: "sequence = [1, 0, 0]" and i: "idx = 1 \<or> idx = 2"
    define idx' where "idx' = 1 + int (rand k) mod 2"
    from i s have pi: "py_index (length sequence) idx = Some (nat idx)"
      by (auto simp: py_index_def)
    from i s have z: "sequence ! nat idx = 0" by auto
    have r: "randint 1 (int (length sequence) - 1) (rand k) = Inr idx'"
      by (simp add: randint_def s idx'_def)
    have i': "idx' = 1 \<or> idx' = 2" unfolding idx'_def by presburger
    from 1(2) have "resample' sequence rand (Suc k) idx' = Some res"
      by (simp add: pi z r)
    from 1(1)[OF this] s i' show False by blast
  qed
qed

lemma mask_index_diverges: "mask_index [1, 0, 0] rand k = None"
proof -
  define idx where "idx = 1 + int (rand k) mod 2"
  have r: "randint 1 2 (rand k) = Inr idx"
    by (simp add: randint_def idx_def)
  have i: "idx = 1 \<or> idx = 2" unfolding idx_def by presburger
  have "resample [1, 0, 0] rand (Suc k) idx = None"
  proof (cases "resample [1, 0, 0] rand (Suc k) idx")
    case None
    then show ?thesis .
  next
    case (Some res)
    from resample_never[OF this] i show ?thesis by simp
  qed
  then show ?thesis by (simp add: mask_index_def r)
qed

text \<open>
  Claim C5 does not hold for \<^verbatim>\<open>generate_dataset\<close>: on a genome whose positions 1 and 2
  both carry category 0, every draw lands on category 0 and the loop never ends,
  whatever numbers the generator gives.
\<close>

theorem generate_dataset_redraws_forever:
  "generate_dataset [[1, 0, 0]] all_features num_functions n_features max_length rand = None"
  by (simp add: generate_dataset_def mask_index_diverges)

section \<open>Coordinate reflection\<close>

lemma reflect_positions_twice:
  "reflect_positions n (reflect_positions n ps) =
     map (\<lambda>i. (\<bar>\<bar>fst i - n\<bar> - n\<bar>, \<bar>\<bar>snd i - n\<bar> - n\<bar>)) ps"
  by (simp add: reflect_positions_def rev_map o_def)

text \<open>
  Claim C9. A genome record holds spans \<open>(s, e)\<close> with \<open>0 \<le> s \<le> e\<close>, and the claim
  asks that no gene end exceeds the genome length. For such a position list, applying
  the reflection of \<^verbatim>\<open>flip_genomes\<close> twice, each time mapping every span \<open>(s, e)\<close> to
  \<open>(|length - e|, |length - s|)\<close> and reversing the list, gives the position list back.
\<close>

theorem reflect_positions_round_trip:
  assumes "\<forall>p\<in>set pos. 0 \<le> fst p \<and> fst p \<le> snd p \<and> snd p \<le> len"
  shows "reflect_positions len (reflect_positions len pos) = pos"
proof -
  have "map (\<lambda>i. (\<bar>\<bar>fst i - len\<bar> - len\<bar>, \<bar>\<bar>snd i - len\<bar> - len\<bar>)) pos = pos"
  proof (rule map_idI)
    fix p assume "p \<in> set pos"
    with assms have "0 \<le> fst p" "fst p \<le> snd p" "snd p \<le> len"
      by auto
    then have "\<bar>\<bar>fst p - len\<bar> - len\<bar> = fst p" "\<bar>\<bar>snd p - len\<bar> - len\<bar> = snd p"
      by linarith+
    then show "(\<bar>\<bar>fst p - len\<bar> - len\<bar>, \<bar>\<bar>snd p - len\<bar> - len\<bar>) = p"
      by simp
  qed
  then show ?thesis by (simp only: reflect_positions_twice)
qed

text \<open>
  A genome of length 60 with three genes: one reflection moves every span, the second
  one brings the list back.
\<close>

theorem reflect_positions_round_trip_witness:
  "reflect_positions 60 [(0, 10), (20, 30), (45, 50)] = [(10, 15), (30, 40), (50, 60)] \<and>
   reflect_positions 60 (reflect_positions 60 [(0, 10), (20, 30), (45, 50)]) =
     [(0, 10), (20, 30), (45, 50)]"
proof -
  have h: "\<forall>p\<in>set [(0 :: int, 10 :: int), (20, 30), (45, 50)].
      0 \<le> fst p \<and> fst p \<le> snd p \<and> snd p \<le> 60"
    by simp
  have one: "reflect_positions 60 [(0, 10), (20, 30), (45, 50)] = [(10, 15), (30, 40), (50, 60)]"
    by (simp add: reflect_positions_def)
  from one reflect_positions_round_trip[OF h] show ?thesis by (intro conjI)
qed

end
